theory Spec2Isabelle
  imports Main
begin

section \<open>JavaScript values shared by the handlers\<close>

text \<open>
  An optional string (\<open>string | undefined\<close>) is an \<open>option\<close>. A JavaScript condition
  \<open>if (s)\<close> on such a value is false for \<open>undefined\<close> and for the empty string.
\<close>

definition truthy :: "string option \<Rightarrow> bool" where
  "truthy v = (case v of None \<Rightarrow> False | Some s \<Rightarrow> s \<noteq> [])"

section \<open>Versioned auto-approval settings (updateAutoApprovalSettings.ts, lines 1-32)\<close>

text \<open>
  The settings object carries an optional integer version (the code reads it as
  \<open>currentSettings?.version ?? 1\<close>); every other field is kept in \<open>rest\<close>.
  The request always has a version (a proto scalar).
\<close>

record 'a AutoApprovalSettings =
  version :: "int option"
  rest :: 'a

record 'a AutoApprovalSettingsRequest =
  req_version :: int
  req_rest :: 'a

datatype Empty = Empty

record 'a Task =
  autoApprovalSettings :: "'a AutoApprovalSettings"

text \<open>
  The calls the handler makes on its collaborators, in the order they are made.
  \<open>PostStateToWebview\<close> records the auto-approval settings contained in the pushed state.
\<close>

datatype 'a Call =
    UpdateGlobalState "'a AutoApprovalSettings"
  | TaskUpdateAutoApprovalSettings "'a AutoApprovalSettings"
  | PostStateToWebview "'a AutoApprovalSettings option"

record 'a Controller =
  globalState :: "'a AutoApprovalSettings option"
  task :: "'a Task option"
  calls :: "'a Call list"

text \<open>
  Modelled from the spec: \<open>getStateToPostToWebview\<close>, \<open>updateGlobalState\<close>,
  \<open>postStateToWebview\<close> and \<open>Task.updateAutoApprovalSettings\<close> are not among the sources.
  Following the State Manager of the spec (section 4.4), the value stored under the key
  \<open>autoApprovalSettings\<close> is what the next read returns, a write replaces it, the task keeps
  the value it is handed, and a state push reports the stored value.
\<close>

definition getStateToPostToWebview :: "'a Controller \<Rightarrow> 'a AutoApprovalSettings option" where
  "getStateToPostToWebview controller = globalState controller"

definition updateGlobalState :: "'a Controller \<Rightarrow> 'a AutoApprovalSettings \<Rightarrow> 'a Controller" where
  "updateGlobalState controller settings =
     controller\<lparr>globalState := Some settings,
                calls := calls controller @ [UpdateGlobalState settings]\<rparr>"

definition task_updateAutoApprovalSettings ::
  "'a Controller \<Rightarrow> 'a Task \<Rightarrow> 'a AutoApprovalSettings \<Rightarrow> 'a Controller" where
  "task_updateAutoApprovalSettings controller t settings =
     controller\<lparr>task := Some (t\<lparr>autoApprovalSettings := settings\<rparr>),
                calls := calls controller @ [TaskUpdateAutoApprovalSettings settings]\<rparr>"

definition postStateToWebview :: "'a Controller \<Rightarrow> 'a Controller" where
  "postStateToWebview controller =
     controller\<lparr>calls := calls controller @ [PostStateToWebview (getStateToPostToWebview controller)]\<rparr>"

text \<open>Lines 14-16: the version the incoming one is compared with.\<close>

definition currentVersion :: "'a Controller \<Rightarrow> int" where
  "currentVersion controller =
     (case getStateToPostToWebview controller of
        None \<Rightarrow> 1
      | Some currentSettings \<Rightarrow> (case version currentSettings of None \<Rightarrow> 1 | Some v \<Rightarrow> v))"

text \<open>
  Lines 13-32. \<open>convertProtoToAutoApprovalSettings\<close> is not among the sources and is
  the parameter \<open>conv\<close>.
\<close>

definition updateAutoApprovalSettings ::
  "('a AutoApprovalSettingsRequest \<Rightarrow> 'a AutoApprovalSettings) \<Rightarrow>
   'a Controller \<Rightarrow> 'a AutoApprovalSettingsRequest \<Rightarrow> Empty \<times> 'a Controller" where
  "updateAutoApprovalSettings conv controller request =
     (let incomingVersion = req_version request;
          currentVersion = currentVersion controller
      in if incomingVersion > currentVersion then
           (let settings = conv request;
                c1 = updateGlobalState controller settings;
                c2 = (case task c1 of
                        Some t \<Rightarrow> task_updateAutoApprovalSettings c1 t settings
                      | None \<Rightarrow> c1);
                c3 = postStateToWebview c2
            in (Empty, c3))
         else (Empty, controller))"

text \<open>A series of update requests handled one after the other.\<close>

definition handle_updates ::
  "('a AutoApprovalSettingsRequest \<Rightarrow> 'a AutoApprovalSettings) \<Rightarrow>
   'a Controller \<Rightarrow> 'a AutoApprovalSettingsRequest list \<Rightarrow> 'a Controller" where
  "handle_updates conv controller requests =
     foldl (\<lambda>c r. snd (updateAutoApprovalSettings conv c r)) controller requests"

text \<open>
  A converter that copies the version and the remaining fields, for running the handler
  on concrete requests.
\<close>

definition copy_fields :: "'a AutoApprovalSettingsRequest \<Rightarrow> 'a AutoApprovalSettings" where
  "copy_fields request = \<lparr>version = Some (req_version request), rest = req_rest request\<rparr>"

fun is_UpdateGlobalState :: "'a Call \<Rightarrow> bool" where
  "is_UpdateGlobalState (UpdateGlobalState s) = True"
| "is_UpdateGlobalState c = False"

section \<open>Trigger-select-files subscriptions (updateAutoApprovalSettings.ts, lines 33-88)\<close>

text \<open>
  A response stream is a closure; the JavaScript \<open>Set\<close> compares closures by identity,
  so a stream is modelled by a number that identifies it. The \<open>Set\<close> itself is the list
  of its members in insertion order, which is the order \<open>Array.from\<close> returns them in:
  \<open>add\<close> appends a new member and leaves the set alone when the member is there,
  \<open>delete\<close> removes the member.
\<close>

type_synonym StreamingResponseHandler = nat

definition Set_add :: "'a \<Rightarrow> 'a list \<Rightarrow> 'a list" where
  "Set_add x xs = (if x \<in> set xs then xs else xs @ [x])"

definition Set_delete :: "'a \<Rightarrow> 'a list \<Rightarrow> 'a list" where
  "Set_delete x xs = filter (\<lambda>y. y \<noteq> x) xs"

text \<open>
  The cleanup closure of lines 57-60 captures the response stream and deletes it from the
  subscription set when it runs.
\<close>

datatype Cleanup = DeleteTriggerSelectFilesSubscription StreamingResponseHandler

record RequestEntry =
  cleanup :: Cleanup
  metadata :: string
  entry_responseStream :: "StreamingResponseHandler option"

record Broker =
  activeTriggerSelectFilesSubscriptions :: "StreamingResponseHandler list"
  requestRegistry :: "string \<Rightarrow> RequestEntry option"

text \<open>
  Modelled from the spec: \<open>getRequestRegistry().registerRequest\<close> is not among the
  sources.
  Section 4.1 of the spec: \<open>register(id, cleanup, metadata, pushFn?)\<close> stores the entry
  under the identifier and overwrites an entry that is already there.
\<close>

definition registerRequest ::
  "string \<Rightarrow> Cleanup \<Rightarrow> string \<Rightarrow> StreamingResponseHandler option \<Rightarrow> Broker \<Rightarrow> Broker" where
  "registerRequest requestId cl meta responseStream b =
     b\<lparr>requestRegistry := (requestRegistry b)
          (requestId \<mapsto> \<lparr>cleanup = cl, metadata = meta, entry_responseStream = responseStream\<rparr>)\<rparr>"

definition run_cleanup :: "Cleanup \<Rightarrow> Broker \<Rightarrow> Broker" where
  "run_cleanup cl b =
     (case cl of DeleteTriggerSelectFilesSubscription responseStream \<Rightarrow>
        b\<lparr>activeTriggerSelectFilesSubscriptions :=
             Set_delete responseStream (activeTriggerSelectFilesSubscriptions b)\<rparr>)"

text \<open>Lines 47-66. The guard \<open>if (requestId)\<close> is JavaScript truthiness.\<close>

definition subscribeToTriggerSelectFiles ::
  "Broker \<Rightarrow> StreamingResponseHandler \<Rightarrow> string option \<Rightarrow> Broker" where
  "subscribeToTriggerSelectFiles b responseStream requestId =
     (let b1 = b\<lparr>activeTriggerSelectFilesSubscriptions :=
                   Set_add responseStream (activeTriggerSelectFilesSubscriptions b)\<rparr>;
          cl = DeleteTriggerSelectFilesSubscription responseStream
      in case requestId of
           None \<Rightarrow> b1
         | Some rid \<Rightarrow>
             if truthy (Some rid)
             then registerRequest rid cl ''triggerSelectFiles_subscription'' (Some responseStream) b1
             else b1)"

text \<open>
  Lines 71-88. A promise settles as fulfilled or rejected. Calling a response stream is
  the parameter \<open>respond\<close>: it gives the outcome of the delivery and the broker as it is
  when the delivery has settled, so that subscriptions and cleanups that run while a
  delivery is pending are part of the model. \<open>map\<close> calls the streams in the order of
  the snapshot and the \<open>catch\<close> of a rejected delivery runs when its promise has settled;
  the model runs each callback, its \<open>catch\<close> included, to its end before the next stream
  is called. Which streams are called and how the publish settles are the same in both.
  The \<open>catch\<close> of a callback only deletes its own stream, and deletions of different
  streams commute, so for streams that leave the broker alone the subscription set after
  the publish is the same too. For a stream that changes the set while the rejection of
  another is pending, the set after the publish can differ from the one of the code; the
  properties below state the set after a publish only for runs in which the two agree:
  the streams leave the broker alone, or no delivery is rejected.
\<close>

datatype Settled = Fulfilled | Rejected

record Publish =
  settled :: Settled
  attempted :: "StreamingResponseHandler list"
  after :: Broker

text \<open>
  The body of the async callback (lines 72-85): try the delivery, on error delete. It
  gives how the promise of the callback settles, the streams the callback has called, and
  the broker.
\<close>

definition send_callback ::
  "(StreamingResponseHandler \<Rightarrow> Broker \<Rightarrow> Settled \<times> Broker) \<Rightarrow>
   StreamingResponseHandler \<Rightarrow> Broker \<Rightarrow> Settled \<times> StreamingResponseHandler list \<times> Broker" where
  "send_callback respond responseStream b =
     (case respond responseStream b of
        (Fulfilled, b1) \<Rightarrow> (Fulfilled, [responseStream], b1)
      | (Rejected, b1) \<Rightarrow>
          (Fulfilled, [responseStream],
           b1\<lparr>activeTriggerSelectFilesSubscriptions :=
                Set_delete responseStream (activeTriggerSelectFilesSubscriptions b1)\<rparr>))"

fun map_callbacks ::
  "(StreamingResponseHandler \<Rightarrow> Broker \<Rightarrow> Settled \<times> Broker) \<Rightarrow>
   StreamingResponseHandler list \<Rightarrow> Broker \<Rightarrow> Settled list \<times> StreamingResponseHandler list \<times> Broker" where
  "map_callbacks respond [] b = ([], [], b)"
| "map_callbacks respond (responseStream # streams) b =
     (case send_callback respond responseStream b of
        (p, called, b1) \<Rightarrow>
          (case map_callbacks respond streams b1 of
             (ps, tried, b2) \<Rightarrow> (p # ps, called @ tried, b2)))"

text \<open>\<open>Promise.all\<close> is fulfilled when every promise is, and rejected otherwise.\<close>

definition Promise_all :: "Settled list \<Rightarrow> Settled" where
  "Promise_all promises = (if list_all (\<lambda>p. p = Fulfilled) promises then Fulfilled else Rejected)"

definition sendTriggerSelectFilesEvent ::
  "(StreamingResponseHandler \<Rightarrow> Broker \<Rightarrow> Settled \<times> Broker) \<Rightarrow> Broker \<Rightarrow> Publish" where
  "sendTriggerSelectFilesEvent respond b =
     (case map_callbacks respond (activeTriggerSelectFilesSubscriptions b) b of
        (promises, tried, b1) \<Rightarrow>
          \<lparr>settled = Promise_all promises, attempted = tried, after = b1\<rparr>)"

text \<open>Response streams that leave the broker alone and settle as \<open>outcome\<close> says.\<close>

definition quiet ::
  "(StreamingResponseHandler \<Rightarrow> Settled) \<Rightarrow> StreamingResponseHandler \<Rightarrow> Broker \<Rightarrow> Settled \<times> Broker" where
  "quiet outcome responseStream b = (outcome responseStream, b)"


text \<open>A broker with no subscription and no registered request.\<close>

definition no_subscriptions :: Broker where
  "no_subscriptions = \<lparr>activeTriggerSelectFilesSubscriptions = [], requestRegistry = (\<lambda>_. None)\<rparr>"

section \<open>Finding the visible view (command-helpers.ts, lines 1-49, and its two other versions)\<close>

text \<open>
  A webview instance has a client id and a controller. The instance that
  \<open>WebviewProvider.getLastActiveInstance()\<close> returns changes with time: it is a function
  of the milliseconds that have passed since the focus command returned.
\<close>

record 'c WebviewProvider =
  getClientId :: "string option"
  controller :: 'c

datatype ShowMessageType = ERROR | INFORMATION | WARNING

datatype Effect =
    ExecuteCommand string
  | ConsoleError string
  | ShowMessage ShowMessageType string
  | SendFocusChatInputEvent string

datatype Thrown = CommandRejected

text \<open>
  What a run of the function does: its result (the controller, \<open>null\<close>, or an exception
  that reaches the caller), the calls it makes on the host in order, and the milliseconds
  it spends in the bounded wait.
\<close>

record 'c Run =
  result :: "Thrown + 'c option"
  effects :: "Effect list"
  waited :: nat

text \<open>
  Modelled from the spec: \<open>pWaitFor\<close> (the package p-wait-for) is not among the
  sources.
  Section 4.5 of the spec: poll at a short fixed interval, for a bounded time. The
  condition is checked at once and then every \<open>interval\<close> milliseconds (a timer of less
  than one millisecond lasts one); the wait resolves at the first check that holds, at
  time \<open>Some t\<close>, and is rejected when \<open>timeout\<close> milliseconds have passed, \<open>None\<close>.
\<close>

function pWaitFor_from :: "(nat \<Rightarrow> bool) \<Rightarrow> nat \<Rightarrow> nat \<Rightarrow> nat \<Rightarrow> nat option" where
  "pWaitFor_from condition interval timeout t =
     (if timeout \<le> t then None
      else if condition t then Some t
      else pWaitFor_from condition interval timeout (t + max 1 interval))"
  by pat_completeness auto
termination
  by (relation "measure (\<lambda>(condition, interval, timeout, t). timeout - t)") auto

declare pWaitFor_from.simps [simp del]

definition pWaitFor :: "(nat \<Rightarrow> bool) \<Rightarrow> nat \<Rightarrow> nat \<Rightarrow> nat option" where
  "pWaitFor condition interval timeout = pWaitFor_from condition interval timeout 0"

text \<open>
  command-helpers.ts, lines 15-49. \<open>focused\<close> says whether the focus command returned (the
  call is awaited outside the \<open>try\<close>, so its rejection reaches the caller). The instance
  is read when the command has returned (line 20), before the wait. The test
  \<open>!activeWebview || !clientId\<close> of line 36 fails exactly when that instance is defined
  and its client id is a string that is not empty, the first case below.
\<close>

definition ensureClineViewIsVisible ::
  "bool \<Rightarrow> nat \<Rightarrow> (nat \<Rightarrow> 'c WebviewProvider option) \<Rightarrow> 'c Run" where
  "ensureClineViewIsVisible focused interval getLastActiveInstance =
     (if \<not> focused
      then \<lparr>result = Inl CommandRejected,
            effects = [ExecuteCommand ''cline.focusChatInput''], waited = 0\<rparr>
      else
        (let activeWebview = getLastActiveInstance 0
         in case pWaitFor (\<lambda>t. getLastActiveInstance t \<noteq> None) interval 3000 of
              None \<Rightarrow>
                \<lparr>result = Inr None,
                 effects = [ExecuteCommand ''cline.focusChatInput'',
                            ConsoleError ''Timeout waiting for Cline webview to become available.'',
                            ShowMessage ERROR
                              ''Could not activate Cline view. Please try opening it manually.''],
                 waited = 3000\<rparr>
            | Some t \<Rightarrow>
                (let clientId = (case activeWebview of None \<Rightarrow> None | Some w \<Rightarrow> getClientId w)
                 in case (activeWebview, clientId) of
                      (Some w, Some cid) \<Rightarrow>
                        if cid \<noteq> []
                        then \<lparr>result = Inr (Some (controller w)),
                              effects = [ExecuteCommand ''cline.focusChatInput'',
                                         SendFocusChatInputEvent cid],
                              waited = t\<rparr>
                        else \<lparr>result = Inr None,
                              effects = [ExecuteCommand ''cline.focusChatInput'',
                                         ShowMessage ERROR ''Could not find an active Cline chat window.''],
                              waited = t\<rparr>
                    | _ \<Rightarrow>
                        \<lparr>result = Inr None,
                         effects = [ExecuteCommand ''cline.focusChatInput'',
                                    ShowMessage ERROR ''Could not find an active Cline chat window.''],
                         waited = t\<rparr>)))"

text \<open>
  The version in part_000, lines 8-33: the instance is read after the wait. The code after
  the \<open>await\<close> runs in the turn of the event loop in which the check succeeded, so the
  instance is read at the time of that check.
\<close>

definition ensureClineViewIsVisible_part_000 ::
  "bool \<Rightarrow> nat \<Rightarrow> (nat \<Rightarrow> 'c WebviewProvider option) \<Rightarrow> 'c Run" where
  "ensureClineViewIsVisible_part_000 focused interval getLastActiveInstance =
     (if \<not> focused
      then \<lparr>result = Inl CommandRejected,
            effects = [ExecuteCommand ''cline.focusChatInput''], waited = 0\<rparr>
      else
        (case pWaitFor (\<lambda>t. getLastActiveInstance t \<noteq> None) interval 3000 of
           None \<Rightarrow>
             \<lparr>result = Inr None,
              effects = [ExecuteCommand ''cline.focusChatInput'',
                         ConsoleError ''Timeout waiting for Cline webview to become available.'',
                         ShowMessage ERROR
                           ''Could not activate Cline view. Please try opening it manually.''],
              waited = 3000\<rparr>
         | Some t \<Rightarrow>
             (case getLastActiveInstance t of
                None \<Rightarrow>
                  \<lparr>result = Inr None,
                   effects = [ExecuteCommand ''cline.focusChatInput'',
                              ShowMessage ERROR ''Could not find an active Cline chat window.''],
                   waited = t\<rparr>
              | Some activeWebview \<Rightarrow>
                  \<lparr>result = Inr (Some (controller activeWebview)),
                   effects = [ExecuteCommand ''cline.focusChatInput''],
                   waited = t\<rparr>)))"

text \<open>
  The version in part_001, lines 13-40: as part_000, on
  \<open>WebviewProvider.getVisibleInstance()\<close>, with its own text on the console.
\<close>

definition ensureClineViewIsVisible_part_001 ::
  "bool \<Rightarrow> nat \<Rightarrow> (nat \<Rightarrow> 'c WebviewProvider option) \<Rightarrow> 'c Run" where
  "ensureClineViewIsVisible_part_001 focused interval getVisibleInstance =
     (if \<not> focused
      then \<lparr>result = Inl CommandRejected,
            effects = [ExecuteCommand ''cline.focusChatInput''], waited = 0\<rparr>
      else
        (case pWaitFor (\<lambda>t. getVisibleInstance t \<noteq> None) interval 3000 of
           None \<Rightarrow>
             \<lparr>result = Inr None,
              effects = [ExecuteCommand ''cline.focusChatInput'',
                         ConsoleError ''Timeout waiting for Cline webview to become visible.'',
                         ShowMessage ERROR
                           ''Could not activate Cline view. Please try opening it manually.''],
              waited = 3000\<rparr>
         | Some t \<Rightarrow>
             (case getVisibleInstance t of
                None \<Rightarrow>
                  \<lparr>result = Inr None,
                   effects = [ExecuteCommand ''cline.focusChatInput'',
                              ShowMessage ERROR ''Could not find an active Cline chat window.''],
                   waited = t\<rparr>
              | Some visibleWebview \<Rightarrow>
                  \<lparr>result = Inr (Some (controller visibleWebview)),
                   effects = [ExecuteCommand ''cline.focusChatInput''],
                   waited = t\<rparr>)))"

text \<open>The messages shown to the user in a run.\<close>

fun shown :: "Effect list \<Rightarrow> (ShowMessageType \<times> string) list" where
  "shown [] = []"
| "shown (ShowMessage ty msg # es) = (ty, msg) # shown es"
| "shown (e # es) = shown es"

text \<open>A view that is absent for the first \<open>delay\<close> milliseconds and present from then on.\<close>

definition appears_after :: "nat \<Rightarrow> 'c WebviewProvider \<Rightarrow> nat \<Rightarrow> 'c WebviewProvider option" where
  "appears_after delay w t = (if t < delay then None else Some w)"

section \<open>Formatting the context (command-helpers.ts, lines 51-125)\<close>

text \<open>
  Strings are lists of 8-bit characters. The characters that \<open>String.prototype.trim\<close>
  removes are, in this range, tab, line feed, vertical tab, form feed, carriage return,
  space and the no-break space.
\<close>

definition newline :: string where
  "newline = [CHR 0x0A]"

definition is_whitespace :: "char \<Rightarrow> bool" where
  "is_whitespace c =
     (c = CHR 0x09 \<or> c = CHR 0x0A \<or> c = CHR 0x0B \<or> c = CHR 0x0C \<or> c = CHR 0x0D
      \<or> c = CHR 0x20 \<or> c = CHR 0xA0)"

definition trim :: "string \<Rightarrow> string" where
  "trim s = rev (dropWhile is_whitespace (rev (dropWhile is_whitespace s)))"

text \<open>\<open>Array.prototype.join\<close> on an array of strings.\<close>

fun Array_join :: "string \<Rightarrow> string list \<Rightarrow> string" where
  "Array_join sep [] = []"
| "Array_join sep [x] = x"
| "Array_join sep (x # y # ys) = x @ sep @ Array_join sep (y # ys)"

text \<open>
  A line number in a template string: the decimal digits of an integer, with a minus
  sign for a negative one.
\<close>

definition digit_char :: "nat \<Rightarrow> char" where
  "digit_char n = ''0123456789'' ! (n mod 10)"

fun digits :: "nat \<Rightarrow> string" where
  "digits n = (if n < 10 then [digit_char n] else digits (n div 10) @ [digit_char n])"

declare digits.simps [simp del]

definition String_of_number :: "int \<Rightarrow> string" where
  "String_of_number i = (if i < 0 then CHR ''-'' # digits (nat (- i)) else digits (nat i))"

text \<open>
  The proto \<open>Diagnostic\<close>: the message, an optional range whose start position is
  optional, the severity and an optional source. Of the range only the line of its start
  is read.
\<close>

datatype DiagnosticSeverity =
    DIAGNOSTIC_ERROR
  | DIAGNOSTIC_WARNING
  | DIAGNOSTIC_INFORMATION
  | DIAGNOSTIC_HINT
  | UNRECOGNIZED

record Position =
  line :: int

record Range =
  start :: "Position option"

record Diagnostic =
  message :: string
  range_of :: "Range option"
  severity :: DiagnosticSeverity
  source :: "string option"

record CodeSelection =
  text_of :: string
  languageId :: string

record 'd CommandContext =
  prompt :: "string option"
  filePath :: "string option"
  codeSelection :: "CodeSelection option"
  terminalOutput :: "string option"
  diagnostics :: "'d list option"

text \<open>Lines 97-114, the \<open>switch\<close> on the severity.\<close>

fun severity_label :: "DiagnosticSeverity \<Rightarrow> string" where
  "severity_label DIAGNOSTIC_ERROR = ''Error''"
| "severity_label DIAGNOSTIC_WARNING = ''Warning''"
| "severity_label DIAGNOSTIC_INFORMATION = ''Info''"
| "severity_label DIAGNOSTIC_HINT = ''Hint''"
| "severity_label _ = ''Diagnostic''"

text \<open>
  Line 117: \<open>(diagnostic.range?.start?.line || 0) + 1\<close>, where \<open>||\<close> gives 0 for a
  missing line and for the line 0.
\<close>

definition diagnostic_line :: "Diagnostic \<Rightarrow> int" where
  "diagnostic_line diagnostic =
     (case (case range_of diagnostic of
              None \<Rightarrow> None
            | Some r \<Rightarrow> (case start r of None \<Rightarrow> None | Some p \<Rightarrow> Some (line p))) of
        None \<Rightarrow> 0
      | Some l \<Rightarrow> if l = 0 then 0 else l) + 1"

text \<open>Lines 118-119: what one diagnostic adds to \<open>problemsString\<close>.\<close>

definition diagnostic_entry :: "Diagnostic \<Rightarrow> string" where
  "diagnostic_entry diagnostic =
     (let label = severity_label (severity diagnostic);
          l = diagnostic_line diagnostic;
          src = (case source diagnostic of
                   None \<Rightarrow> []
                 | Some s \<Rightarrow> if s \<noteq> [] then ''['' @ s @ ''] '' else [])
      in ''- '' @ src @ label @ '' on line '' @ String_of_number l @ '': ''
           @ message diagnostic @ newline)"

text \<open>Lines 96-120, the \<open>for\<close> loop over the diagnostics.\<close>

fun problems_loop :: "string \<Rightarrow> Diagnostic list \<Rightarrow> string" where
  "problems_loop problemsString [] = problemsString"
| "problems_loop problemsString (diagnostic # ds) =
     problems_loop (problemsString @ diagnostic_entry diagnostic) ds"

text \<open>
  Lines 68-125. \<open>controller.getFileMentionFromPath\<close> is not among the sources and is
  the parameter of the same name. Each \<open>if\<close> is JavaScript truthiness: a string counts when
  it is defined and not empty, the code selection when it is defined, the diagnostics when
  the array is defined and not empty.
\<close>

definition formatContext :: "(string \<Rightarrow> string) \<Rightarrow> Diagnostic CommandContext \<Rightarrow> string" where
  "formatContext getFileMentionFromPath context =
     (let parts0 = [];
          parts1 = (case prompt context of
                      None \<Rightarrow> parts0
                    | Some p \<Rightarrow> if p \<noteq> [] then parts0 @ [p] else parts0);
          parts2 = (case filePath context of
                      None \<Rightarrow> parts1
                    | Some f \<Rightarrow>
                        if f \<noteq> [] then parts1 @ [getFileMentionFromPath f] else parts1);
          parts3 = (case codeSelection context of
                      None \<Rightarrow> parts2
                    | Some sel \<Rightarrow>
                        parts2 @ [''```'' @ languageId sel @ newline @ text_of sel @ newline @ ''```'']);
          parts4 = (case terminalOutput context of
                      None \<Rightarrow> parts3
                    | Some out \<Rightarrow>
                        if out \<noteq> []
                        then parts3 @ [''Terminal output:'' @ newline @ ''```'' @ newline @ out
                                       @ newline @ ''```'']
                        else parts3);
          parts5 = (case diagnostics context of
                      None \<Rightarrow> parts4
                    | Some ds \<Rightarrow>
                        if length ds > 0
                        then parts4 @ [trim (problems_loop (''Problems:'' @ newline) ds)]
                        else parts4)
      in Array_join (newline @ newline) parts5)"

text \<open>
  The version in part_000, lines 35-106 (part_001, lines 42-114, has the same text): the
  diagnostics are those of the editor, whose range and start position are required, so
  line 98 reads the line with no default, and whose severity is one of four values, so
  the \<open>default\<close> of the \<open>switch\<close> is not reached.
\<close>

datatype vscode_DiagnosticSeverity =
    vscode_Error
  | vscode_Warning
  | vscode_Information
  | vscode_Hint

record vscode_Diagnostic =
  vscode_message :: string
  vscode_range_start_line :: int
  vscode_severity :: vscode_DiagnosticSeverity
  vscode_source :: "string option"

fun severity_label_part_000 :: "vscode_DiagnosticSeverity \<Rightarrow> string" where
  "severity_label_part_000 vscode_Error = ''Error''"
| "severity_label_part_000 vscode_Warning = ''Warning''"
| "severity_label_part_000 vscode_Information = ''Info''"
| "severity_label_part_000 vscode_Hint = ''Hint''"

definition diagnostic_entry_part_000 :: "vscode_Diagnostic \<Rightarrow> string" where
  "diagnostic_entry_part_000 diagnostic =
     (let label = severity_label_part_000 (vscode_severity diagnostic);
          l = vscode_range_start_line diagnostic + 1;
          src = (case vscode_source diagnostic of
                   None \<Rightarrow> []
                 | Some s \<Rightarrow> if s \<noteq> [] then ''['' @ s @ ''] '' else [])
      in ''- '' @ src @ label @ '' on line '' @ String_of_number l @ '': ''
           @ vscode_message diagnostic @ newline)"

fun problems_loop_part_000 :: "string \<Rightarrow> vscode_Diagnostic list \<Rightarrow> string" where
  "problems_loop_part_000 problemsString [] = problemsString"
| "problems_loop_part_000 problemsString (diagnostic # ds) =
     problems_loop_part_000 (problemsString @ diagnostic_entry_part_000 diagnostic) ds"

definition formatContext_part_000 ::
  "(string \<Rightarrow> string) \<Rightarrow> vscode_Diagnostic CommandContext \<Rightarrow> string" where
  "formatContext_part_000 getFileMentionFromPath context =
     (let parts0 = [];
          parts1 = (case prompt context of
                      None \<Rightarrow> parts0
                    | Some p \<Rightarrow> if p \<noteq> [] then parts0 @ [p] else parts0);
          parts2 = (case filePath context of
                      None \<Rightarrow> parts1
                    | Some f \<Rightarrow>
                        if f \<noteq> [] then parts1 @ [getFileMentionFromPath f] else parts1);
          parts3 = (case codeSelection context of
                      None \<Rightarrow> parts2
                    | Some sel \<Rightarrow>
                        parts2 @ [''```'' @ languageId sel @ newline @ text_of sel @ newline @ ''```'']);
          parts4 = (case terminalOutput context of
                      None \<Rightarrow> parts3
                    | Some out \<Rightarrow>
                        if out \<noteq> []
                        then parts3 @ [''Terminal output:'' @ newline @ ''```'' @ newline @ out
                                       @ newline @ ''```'']
                        else parts3);
          parts5 = (case diagnostics context of
                      None \<Rightarrow> parts4
                    | Some ds \<Rightarrow>
                        if length ds > 0
                        then parts4 @ [trim (problems_loop_part_000 (''Problems:'' @ newline) ds)]
                        else parts4)
      in Array_join (newline @ newline) parts5)"

text \<open>
  The parts as the claim names them, each present or absent: the prompt, the file
  mention, the fenced code selection, the fenced terminal output and the list of
  diagnostics. A string is present when it is defined and not empty, the code selection
  when it is defined, the diagnostics when the array is defined and not empty.
\<close>

definition prompt_part :: "'d CommandContext \<Rightarrow> string option" where
  "prompt_part context =
     (case prompt context of None \<Rightarrow> None | Some p \<Rightarrow> if p = [] then None else Some p)"

definition file_mention_part :: "(string \<Rightarrow> string) \<Rightarrow> 'd CommandContext \<Rightarrow> string option" where
  "file_mention_part mention context =
     (case filePath context of
        None \<Rightarrow> None
      | Some f \<Rightarrow> if f = [] then None else Some (mention f))"

definition code_selection_part :: "'d CommandContext \<Rightarrow> string option" where
  "code_selection_part context =
     (case codeSelection context of
        None \<Rightarrow> None
      | Some sel \<Rightarrow> Some (''```'' @ languageId sel @ newline @ text_of sel @ newline @ ''```''))"

definition terminal_output_part :: "'d CommandContext \<Rightarrow> string option" where
  "terminal_output_part context =
     (case terminalOutput context of
        None \<Rightarrow> None
      | Some out \<Rightarrow>
          if out = [] then None
          else Some (''Terminal output:'' @ newline @ ''```'' @ newline @ out @ newline @ ''```''))"

definition diagnostics_part :: "Diagnostic CommandContext \<Rightarrow> string option" where
  "diagnostics_part context =
     (case diagnostics context of
        None \<Rightarrow> None
      | Some ds \<Rightarrow>
          if ds = [] then None
          else Some (trim (''Problems:'' @ newline @ concat (map diagnostic_entry ds))))"

definition diagnostics_part_part_000 :: "vscode_Diagnostic CommandContext \<Rightarrow> string option" where
  "diagnostics_part_part_000 context =
     (case diagnostics context of
        None \<Rightarrow> None
      | Some ds \<Rightarrow>
          if ds = [] then None
          else Some (trim (''Problems:'' @ newline @ concat (map diagnostic_entry_part_000 ds))))"

text \<open>The present ones among a list of optional parts, in the order of the list.\<close>

fun present :: "'a option list \<Rightarrow> 'a list" where
  "present [] = []"
| "present (None # ps) = present ps"
| "present (Some p # ps) = p # present ps"

definition formatContext_spec :: "(string \<Rightarrow> string) \<Rightarrow> Diagnostic CommandContext \<Rightarrow> string" where
  "formatContext_spec mention context =
     Array_join (newline @ newline)
       (present [prompt_part context, file_mention_part mention context,
                 code_selection_part context, terminal_output_part context,
                 diagnostics_part context])"

text \<open>A context with no field.\<close>

definition no_context :: "'d CommandContext" where
  "no_context = \<lparr>prompt = None, filePath = None, codeSelection = None,
                  terminalOutput = None, diagnostics = None\<rparr>"

section \<open>Properties of updateAutoApprovalSettings\<close>

lemma update_rejected:
  "\<not> currentVersion c < req_version r \<Longrightarrow> updateAutoApprovalSettings conv c r = (Empty, c)"
  by (simp add: updateAutoApprovalSettings_def)

lemma update_applied_state:
  "currentVersion c < req_version r \<Longrightarrow>
   globalState (snd (updateAutoApprovalSettings conv c r)) = Some (conv r)"
  by (simp add: updateAutoApprovalSettings_def Let_def updateGlobalState_def
      task_updateAutoApprovalSettings_def postStateToWebview_def split: option.splits)

lemma update_applied_calls:
  "currentVersion c < req_version r \<Longrightarrow>
   calls (snd (updateAutoApprovalSettings conv c r)) =
     calls c @ (case task c of
                  Some t \<Rightarrow> [UpdateGlobalState (conv r), TaskUpdateAutoApprovalSettings (conv r),
                             PostStateToWebview (Some (conv r))]
                | None \<Rightarrow> [UpdateGlobalState (conv r), PostStateToWebview (Some (conv r))])"
  by (simp add: updateAutoApprovalSettings_def Let_def updateGlobalState_def
      task_updateAutoApprovalSettings_def postStateToWebview_def getStateToPostToWebview_def
      split: option.splits)

lemma update_applied_task:
  "currentVersion c < req_version r \<Longrightarrow>
   task (snd (updateAutoApprovalSettings conv c r)) =
     map_option (\<lambda>t. t\<lparr>autoApprovalSettings := conv r\<rparr>) (task c)"
  by (simp add: updateAutoApprovalSettings_def Let_def updateGlobalState_def
      task_updateAutoApprovalSettings_def postStateToWebview_def split: option.splits)

lemma update_returns_Empty: "fst (updateAutoApprovalSettings conv c r) = Empty"
  by (cases "fst (updateAutoApprovalSettings conv c r)") simp

lemma currentVersion_after_apply:
  "currentVersion c < req_version r \<Longrightarrow> version (conv r) = Some (req_version r) \<Longrightarrow>
   currentVersion (snd (updateAutoApprovalSettings conv c r)) = req_version r"
  by (simp add: currentVersion_def [of "snd (updateAutoApprovalSettings conv c r)"]
      getStateToPostToWebview_def update_applied_state)


lemma update_changes_calls_iff:
  "calls (snd (updateAutoApprovalSettings conv c r)) \<noteq> calls c \<longleftrightarrow>
   currentVersion c < req_version r"
proof (cases "currentVersion c < req_version r")
  case True
  then show ?thesis
    by (simp add: update_applied_calls split: option.splits)
next
  case False
  then show ?thesis
    by (simp add: update_rejected)
qed

lemma handle_updates_2_3_5_4:
  assumes conv: "\<And>q. version (conv q) = Some (req_version q)"
    and cur: "currentVersion c = 3"
    and vs: "req_version r2 = 2" "req_version r3 = 3" "req_version r5 = 5" "req_version r4 = 4"
  shows "handle_updates conv c [r2, r3, r5] = snd (updateAutoApprovalSettings conv c r5)"
    and "handle_updates conv c [r2, r3, r5, r4] = snd (updateAutoApprovalSettings conv c r5)"
    and "currentVersion (snd (updateAutoApprovalSettings conv c r5)) = 5"
proof -
  let ?c5 = "snd (updateAutoApprovalSettings conv c r5)"
  have s2: "snd (updateAutoApprovalSettings conv c r2) = c"
    using cur vs by (simp add: update_rejected)
  have s3: "snd (updateAutoApprovalSettings conv c r3) = c"
    using cur vs by (simp add: update_rejected)
  have lt5: "currentVersion c < req_version r5"
    using cur vs by simp
  show v5: "currentVersion ?c5 = 5"
    using lt5 conv [of r5] vs by (simp add: currentVersion_after_apply)
  have s4: "snd (updateAutoApprovalSettings conv ?c5 r4) = ?c5"
    using v5 vs by (simp add: update_rejected)
  show "handle_updates conv c [r2, r3, r5] = ?c5"
    by (simp add: handle_updates_def s2 s3)
  show "handle_updates conv c [r2, r3, r5, r4] = ?c5"
    by (simp add: handle_updates_def s2 s3 s4)
qed

text \<open>
  Claim C1. An incoming update is applied exactly when its version is greater than the
  version read from the current state: the handler calls its collaborators iff
  \<open>currentVersion c < req_version r\<close>, an applied update becomes the stored value, and a
  rejected one leaves the controller as it was. For a converter that keeps the version,
  a controller at version 3 that handles updates with versions 2, 3, 5, 4 in this order
  applies the version-5 update only: the final state is the state after that single
  update, its version is 5, the only write to global state is the version-5 settings, and
  the version-4 update, arriving at version 5, is rejected.
\<close>

theorem updateAutoApprovalSettings_monotonic_version:
  "(calls (snd (updateAutoApprovalSettings conv c r)) \<noteq> calls c \<longleftrightarrow>
      currentVersion c < req_version r)
   \<and> (currentVersion c < req_version r \<longrightarrow>
        globalState (snd (updateAutoApprovalSettings conv c r)) = Some (conv r))
   \<and> (\<not> currentVersion c < req_version r \<longrightarrow>
        updateAutoApprovalSettings conv c r = (Empty, c))
   \<and> ((\<forall>q. version (conv q) = Some (req_version q)) \<and> currentVersion c = 3
        \<and> req_version r2 = 2 \<and> req_version r3 = 3 \<and> req_version r5 = 5 \<and> req_version r4 = 4 \<longrightarrow>
        handle_updates conv c [r2, r3, r5, r4] = snd (updateAutoApprovalSettings conv c r5)
        \<and> globalState (handle_updates conv c [r2, r3, r5, r4]) = Some (conv r5)
        \<and> currentVersion (handle_updates conv c [r2, r3, r5, r4]) = 5
        \<and> filter is_UpdateGlobalState (calls (handle_updates conv c [r2, r3, r5, r4])) =
            filter is_UpdateGlobalState (calls c) @ [UpdateGlobalState (conv r5)]
        \<and> updateAutoApprovalSettings conv (handle_updates conv c [r2, r3, r5]) r4 =
            (Empty, handle_updates conv c [r2, r3, r5]))"
proof (intro conjI impI)
  show "calls (snd (updateAutoApprovalSettings conv c r)) \<noteq> calls c \<longleftrightarrow>
      currentVersion c < req_version r"
    by (rule update_changes_calls_iff)
next
  assume "currentVersion c < req_version r"
  then show "globalState (snd (updateAutoApprovalSettings conv c r)) = Some (conv r)"
    by (rule update_applied_state)
next
  assume "\<not> currentVersion c < req_version r"
  then show "updateAutoApprovalSettings conv c r = (Empty, c)"
    by (rule update_rejected)
next
  assume h: "(\<forall>q. version (conv q) = Some (req_version q)) \<and> currentVersion c = 3
        \<and> req_version r2 = 2 \<and> req_version r3 = 3 \<and> req_version r5 = 5 \<and> req_version r4 = 4"
  then have conv: "\<And>q. version (conv q) = Some (req_version q)"
    and cur: "currentVersion c = 3"
    and vs: "req_version r2 = 2" "req_version r3 = 3" "req_version r5 = 5" "req_version r4 = 4"
    by simp_all
  note seq = handle_updates_2_3_5_4 [of conv c r2 r3 r5 r4, OF conv cur vs]
  have lt5: "currentVersion c < req_version r5"
    using cur vs by simp
  show "handle_updates conv c [r2, r3, r5, r4] = snd (updateAutoApprovalSettings conv c r5)"
    by (rule seq(2))
  show "globalState (handle_updates conv c [r2, r3, r5, r4]) = Some (conv r5)"
    by (simp add: seq(2) update_applied_state [OF lt5])
  show "currentVersion (handle_updates conv c [r2, r3, r5, r4]) = 5"
    by (simp add: seq(2) seq(3))
  show "filter is_UpdateGlobalState (calls (handle_updates conv c [r2, r3, r5, r4])) =
            filter is_UpdateGlobalState (calls c) @ [UpdateGlobalState (conv r5)]"
    by (simp add: seq(2) update_applied_calls [OF lt5] split: option.splits)
  show "updateAutoApprovalSettings conv (handle_updates conv c [r2, r3, r5]) r4 =
            (Empty, handle_updates conv c [r2, r3, r5])"
    using seq(3) vs by (simp add: seq(1) update_rejected)
qed


theorem updateAutoApprovalSettings_monotonic_version_witness:
  "currentVersion \<lparr>globalState = Some \<lparr>version = Some 3, rest = ()\<rparr>, task = None, calls = []\<rparr> = 3
   \<and> handle_updates copy_fields
        \<lparr>globalState = Some \<lparr>version = Some 3, rest = ()\<rparr>, task = None, calls = []\<rparr>
        [\<lparr>req_version = 2, req_rest = ()\<rparr>, \<lparr>req_version = 3, req_rest = ()\<rparr>,
         \<lparr>req_version = 5, req_rest = ()\<rparr>, \<lparr>req_version = 4, req_rest = ()\<rparr>]
       = \<lparr>globalState = Some \<lparr>version = Some 5, rest = ()\<rparr>, task = None,
          calls = [UpdateGlobalState \<lparr>version = Some 5, rest = ()\<rparr>,
                   PostStateToWebview (Some \<lparr>version = Some 5, rest = ()\<rparr>)]\<rparr>
   \<and> currentVersion (handle_updates copy_fields
        \<lparr>globalState = Some \<lparr>version = Some 3, rest = ()\<rparr>, task = None, calls = []\<rparr>
        [\<lparr>req_version = 2, req_rest = ()\<rparr>, \<lparr>req_version = 3, req_rest = ()\<rparr>,
         \<lparr>req_version = 5, req_rest = ()\<rparr>, \<lparr>req_version = 4, req_rest = ()\<rparr>]) = 5"
  using updateAutoApprovalSettings_monotonic_version
    [where conv = copy_fields
       and c = "\<lparr>globalState = Some \<lparr>version = Some 3, rest = ()\<rparr>, task = None, calls = []\<rparr>"
       and r = "\<lparr>req_version = 5, req_rest = ()\<rparr>"
       and ?r2.0 = "\<lparr>req_version = 2, req_rest = ()\<rparr>"
       and ?r3.0 = "\<lparr>req_version = 3, req_rest = ()\<rparr>"
       and ?r5.0 = "\<lparr>req_version = 5, req_rest = ()\<rparr>"
       and ?r4.0 = "\<lparr>req_version = 4, req_rest = ()\<rparr>"]
  by (simp add: copy_fields_def currentVersion_def getStateToPostToWebview_def
      updateAutoApprovalSettings_def updateGlobalState_def postStateToWebview_def Let_def)

text \<open>
  Claim C2. An incoming update whose version is less than or equal to the current version
  has no effect: the call returns \<open>Empty\<close> and the controller is the one it was given, so
  the stored setting, the bound task and the list of collaborator calls (no write, no task
  notification, no state push) are unchanged. The only call made on this path is the read
  of the state, which by section 4.4 of the spec falls back to defaults and does not fail.
\<close>

theorem updateAutoApprovalSettings_rejected_no_effect:
  assumes "req_version r \<le> currentVersion c"
  shows "updateAutoApprovalSettings conv c r = (Empty, c)
    \<and> globalState (snd (updateAutoApprovalSettings conv c r)) = globalState c
    \<and> task (snd (updateAutoApprovalSettings conv c r)) = task c
    \<and> calls (snd (updateAutoApprovalSettings conv c r)) = calls c"
proof -
  from assms have "\<not> currentVersion c < req_version r"
    by simp
  then have "updateAutoApprovalSettings conv c r = (Empty, c)"
    by (rule update_rejected)
  then show ?thesis
    by simp
qed

theorem updateAutoApprovalSettings_rejected_no_effect_witness:
  "req_version \<lparr>req_version = 3, req_rest = True\<rparr>
     \<le> currentVersion \<lparr>globalState = Some \<lparr>version = Some 3, rest = False\<rparr>,
                        task = Some \<lparr>autoApprovalSettings = \<lparr>version = Some 3, rest = False\<rparr>\<rparr>,
                        calls = []\<rparr>
   \<and> updateAutoApprovalSettings copy_fields
        \<lparr>globalState = Some \<lparr>version = Some 3, rest = False\<rparr>,
         task = Some \<lparr>autoApprovalSettings = \<lparr>version = Some 3, rest = False\<rparr>\<rparr>,
         calls = []\<rparr>
        \<lparr>req_version = 3, req_rest = True\<rparr>
       = (Empty, \<lparr>globalState = Some \<lparr>version = Some 3, rest = False\<rparr>,
                  task = Some \<lparr>autoApprovalSettings = \<lparr>version = Some 3, rest = False\<rparr>\<rparr>,
                  calls = []\<rparr>)"
proof -
  have h: "req_version \<lparr>req_version = 3, req_rest = True\<rparr>
     \<le> currentVersion \<lparr>globalState = Some \<lparr>version = Some 3, rest = False\<rparr>,
                        task = Some \<lparr>autoApprovalSettings = \<lparr>version = Some 3, rest = False\<rparr>\<rparr>,
                        calls = []\<rparr>"
    by (simp add: currentVersion_def getStateToPostToWebview_def)
  from updateAutoApprovalSettings_rejected_no_effect [OF h, of copy_fields] h
  show ?thesis by simp
qed

text \<open>
  Claim C3. An incoming update whose version exceeds the current version is converted and
  written to global state first; if a task is bound, the task is then handed the new
  settings (a direct call, made before the handler returns); the state push comes last
  and carries the new settings. With no task bound, only the write and the state push are
  made. The handler returns \<open>Empty\<close>.
\<close>

theorem updateAutoApprovalSettings_applied_effects:
  assumes "currentVersion c < req_version r"
  shows "fst (updateAutoApprovalSettings conv c r) = Empty
    \<and> globalState (snd (updateAutoApprovalSettings conv c r)) = Some (conv r)
    \<and> calls (snd (updateAutoApprovalSettings conv c r)) =
        calls c @ (case task c of
                     Some t \<Rightarrow> [UpdateGlobalState (conv r),
                                TaskUpdateAutoApprovalSettings (conv r),
                                PostStateToWebview (Some (conv r))]
                   | None \<Rightarrow> [UpdateGlobalState (conv r), PostStateToWebview (Some (conv r))])
    \<and> task (snd (updateAutoApprovalSettings conv c r)) =
        (case task c of Some t \<Rightarrow> Some (t\<lparr>autoApprovalSettings := conv r\<rparr>) | None \<Rightarrow> None)"
proof (intro conjI)
  show "fst (updateAutoApprovalSettings conv c r) = Empty"
    by (rule update_returns_Empty)
  show "globalState (snd (updateAutoApprovalSettings conv c r)) = Some (conv r)"
    using assms by (rule update_applied_state)
  show "calls (snd (updateAutoApprovalSettings conv c r)) =
        calls c @ (case task c of
                     Some t \<Rightarrow> [UpdateGlobalState (conv r),
                                TaskUpdateAutoApprovalSettings (conv r),
                                PostStateToWebview (Some (conv r))]
                   | None \<Rightarrow> [UpdateGlobalState (conv r), PostStateToWebview (Some (conv r))])"
    using assms by (rule update_applied_calls)
  show "task (snd (updateAutoApprovalSettings conv c r)) =
        (case task c of Some t \<Rightarrow> Some (t\<lparr>autoApprovalSettings := conv r\<rparr>) | None \<Rightarrow> None)"
    using assms by (simp add: update_applied_task split: option.splits)
qed

theorem updateAutoApprovalSettings_applied_effects_witness:
  "currentVersion \<lparr>globalState = Some \<lparr>version = Some 3, rest = False\<rparr>,
                   task = Some \<lparr>autoApprovalSettings = \<lparr>version = Some 3, rest = False\<rparr>\<rparr>,
                   calls = []\<rparr>
     < req_version \<lparr>req_version = 4, req_rest = True\<rparr>
   \<and> updateAutoApprovalSettings copy_fields
        \<lparr>globalState = Some \<lparr>version = Some 3, rest = False\<rparr>,
         task = Some \<lparr>autoApprovalSettings = \<lparr>version = Some 3, rest = False\<rparr>\<rparr>,
         calls = []\<rparr>
        \<lparr>req_version = 4, req_rest = True\<rparr>
       = (Empty, \<lparr>globalState = Some \<lparr>version = Some 4, rest = True\<rparr>,
                  task = Some \<lparr>autoApprovalSettings = \<lparr>version = Some 4, rest = True\<rparr>\<rparr>,
                  calls = [UpdateGlobalState \<lparr>version = Some 4, rest = True\<rparr>,
                           TaskUpdateAutoApprovalSettings \<lparr>version = Some 4, rest = True\<rparr>,
                           PostStateToWebview (Some \<lparr>version = Some 4, rest = True\<rparr>)]\<rparr>)
   \<and> updateAutoApprovalSettings copy_fields
        \<lparr>globalState = None, task = None, calls = []\<rparr> \<lparr>req_version = 2, req_rest = True\<rparr>
       = (Empty, \<lparr>globalState = Some \<lparr>version = Some 2, rest = True\<rparr>, task = None,
                  calls = [UpdateGlobalState \<lparr>version = Some 2, rest = True\<rparr>,
                           PostStateToWebview (Some \<lparr>version = Some 2, rest = True\<rparr>)]\<rparr>)"
proof -
  have n: "currentVersion (\<lparr>globalState = None, task = None, calls = []\<rparr> :: bool Controller)
     < req_version \<lparr>req_version = 2, req_rest = True\<rparr>"
    by (simp add: currentVersion_def getStateToPostToWebview_def)
  have h: "currentVersion \<lparr>globalState = Some \<lparr>version = Some 3, rest = False\<rparr>,
                   task = Some \<lparr>autoApprovalSettings = \<lparr>version = Some 3, rest = False\<rparr>\<rparr>,
                   calls = []\<rparr>
     < req_version \<lparr>req_version = 4, req_rest = True\<rparr>"
    by (simp add: currentVersion_def getStateToPostToWebview_def)
  from updateAutoApprovalSettings_applied_effects [OF h, of copy_fields]
       updateAutoApprovalSettings_applied_effects [OF n, of copy_fields] h
  show ?thesis
    by (simp add: copy_fields_def prod_eq_iff)
qed

text \<open>
  Claim C9. When the state holds no auto-approval settings, or holds settings without a
  version, the current version is taken to be 1: an incoming update with version 0 or 1
  is rejected, and an update is applied exactly when its version is at least 2.
\<close>

theorem updateAutoApprovalSettings_default_version:
  assumes "getStateToPostToWebview c = None
     \<or> (\<exists>s. getStateToPostToWebview c = Some s \<and> version s = None)"
  shows "currentVersion c = 1
    \<and> (req_version r = 0 \<or> req_version r = 1 \<longrightarrow>
         updateAutoApprovalSettings conv c r = (Empty, c))
    \<and> (calls (snd (updateAutoApprovalSettings conv c r)) \<noteq> calls c \<longleftrightarrow> 2 \<le> req_version r)
    \<and> (2 \<le> req_version r \<longrightarrow>
         globalState (snd (updateAutoApprovalSettings conv c r)) = Some (conv r))"
proof -
  from assms have cur: "currentVersion c = 1"
    by (auto simp: currentVersion_def)
  have "req_version r = 0 \<or> req_version r = 1 \<Longrightarrow>
      updateAutoApprovalSettings conv c r = (Empty, c)"
    using cur by (auto simp: update_rejected)
  moreover have "calls (snd (updateAutoApprovalSettings conv c r)) \<noteq> calls c
      \<longleftrightarrow> 2 \<le> req_version r"
    using cur update_changes_calls_iff [of conv c r] by auto
  moreover have "2 \<le> req_version r \<Longrightarrow>
      globalState (snd (updateAutoApprovalSettings conv c r)) = Some (conv r)"
    using cur by (simp add: update_applied_state)
  ultimately show ?thesis
    using cur by blast
qed

theorem updateAutoApprovalSettings_default_version_witness:
  "getStateToPostToWebview (\<lparr>globalState = None, task = None, calls = []\<rparr> :: unit Controller) = None
   \<and> currentVersion (\<lparr>globalState = None, task = None, calls = []\<rparr> :: unit Controller) = 1
   \<and> updateAutoApprovalSettings copy_fields \<lparr>globalState = None, task = None, calls = []\<rparr>
        \<lparr>req_version = 1, req_rest = ()\<rparr>
       = (Empty, \<lparr>globalState = None, task = None, calls = []\<rparr>)
   \<and> globalState (snd (updateAutoApprovalSettings copy_fields
        \<lparr>globalState = None, task = None, calls = []\<rparr> \<lparr>req_version = 2, req_rest = ()\<rparr>))
       = Some \<lparr>version = Some 2, rest = ()\<rparr>"
proof -
  have h: "getStateToPostToWebview (\<lparr>globalState = None, task = None, calls = []\<rparr> :: unit Controller) = None
     \<or> (\<exists>s. getStateToPostToWebview \<lparr>globalState = None, task = None, calls = []\<rparr> = Some s
          \<and> version (s :: unit AutoApprovalSettings) = None)"
    by (simp add: getStateToPostToWebview_def)
  from updateAutoApprovalSettings_default_version
         [OF h, of "\<lparr>req_version = 1, req_rest = ()\<rparr>" copy_fields]
       updateAutoApprovalSettings_default_version
         [OF h, of "\<lparr>req_version = 2, req_rest = ()\<rparr>" copy_fields]
  show ?thesis
    by (simp add: copy_fields_def getStateToPostToWebview_def)
qed


section \<open>Properties of the trigger-select-files subscriptions\<close>

lemma distinct_Set_add: "distinct xs \<Longrightarrow> distinct (Set_add x xs)"
  by (simp add: Set_add_def)

lemma distinct_Set_delete: "distinct xs \<Longrightarrow> distinct (Set_delete x xs)"
  by (simp add: Set_delete_def)

lemma set_Set_add: "set (Set_add x xs) = insert x (set xs)"
  by (auto simp: Set_add_def)

lemma set_Set_delete: "set (Set_delete x xs) = set xs - {x}"
  by (auto simp: Set_delete_def)

lemma send_callback_called: "fst (snd (send_callback respond h b)) = [h]"
  by (auto simp: send_callback_def split: prod.splits Settled.splits)

lemma map_callbacks_attempted:
  "fst (snd (map_callbacks respond streams b)) = streams"
proof (induction streams arbitrary: b)
  case Nil
  show ?case by simp
next
  case (Cons h hs)
  obtain p called b1 where s: "send_callback respond h b = (p, called, b1)"
    by (cases "send_callback respond h b")
  have c: "called = [h]"
    using send_callback_called [of respond h b] s by simp
  obtain ps tried b2 where m: "map_callbacks respond hs b1 = (ps, tried, b2)"
    by (cases "map_callbacks respond hs b1")
  from Cons [of b1] m have "tried = hs"
    by simp
  with s m c show ?case
    by simp
qed

lemma send_callback_Fulfilled: "fst (send_callback respond h b) = Fulfilled"
  by (auto simp: send_callback_def split: prod.splits Settled.splits)

lemma map_callbacks_all_Fulfilled:
  "list_all (\<lambda>p. p = Fulfilled) (fst (map_callbacks respond streams b))"
proof (induction streams arbitrary: b)
  case Nil
  show ?case by simp
next
  case (Cons h hs)
  obtain p called b1 where s: "send_callback respond h b = (p, called, b1)"
    by (cases "send_callback respond h b")
  then have "p = Fulfilled"
    using send_callback_Fulfilled [of respond h b] by simp
  with s Cons [of b1] show ?case
    by (auto split: prod.splits)
qed

lemma send_settled: "settled (sendTriggerSelectFilesEvent respond b) = Fulfilled"
  using map_callbacks_all_Fulfilled [of respond "activeTriggerSelectFilesSubscriptions b" b]
  by (auto simp: sendTriggerSelectFilesEvent_def Promise_all_def split: prod.splits)

lemma send_attempted:
  "attempted (sendTriggerSelectFilesEvent respond b) = activeTriggerSelectFilesSubscriptions b"
  using map_callbacks_attempted [of respond "activeTriggerSelectFilesSubscriptions b" b]
  by (auto simp: sendTriggerSelectFilesEvent_def split: prod.splits)

lemma send_callback_quiet:
  "send_callback (quiet outcome) h b =
     (Fulfilled, [h], if outcome h = Rejected
                 then b\<lparr>activeTriggerSelectFilesSubscriptions :=
                          Set_delete h (activeTriggerSelectFilesSubscriptions b)\<rparr>
                 else b)"
  by (cases "outcome h") (simp_all add: send_callback_def quiet_def)

lemma map_callbacks_quiet:
  "snd (snd (map_callbacks (quiet outcome) streams b)) =
     b\<lparr>activeTriggerSelectFilesSubscriptions :=
         filter (\<lambda>h. \<not> (h \<in> set streams \<and> outcome h = Rejected))
           (activeTriggerSelectFilesSubscriptions b)\<rparr>"
proof (induction streams arbitrary: b)
  case Nil
  show ?case by simp
next
  case (Cons h hs)
  let ?b1 = "if outcome h = Rejected
             then b\<lparr>activeTriggerSelectFilesSubscriptions :=
                      Set_delete h (activeTriggerSelectFilesSubscriptions b)\<rparr>
             else b"
  obtain ps tried b2 where m: "map_callbacks (quiet outcome) hs ?b1 = (ps, tried, b2)"
    by (cases "map_callbacks (quiet outcome) hs ?b1")
  have b2: "b2 = ?b1\<lparr>activeTriggerSelectFilesSubscriptions :=
         filter (\<lambda>k. \<not> (k \<in> set hs \<and> outcome k = Rejected))
           (activeTriggerSelectFilesSubscriptions ?b1)\<rparr>"
    using Cons [of ?b1] m by simp
  have res: "snd (snd (map_callbacks (quiet outcome) (h # hs) b)) = b2"
    using m by (simp add: send_callback_quiet)
  have flt: "filter (\<lambda>k. \<not> (k \<in> set hs \<and> outcome k = Rejected))
           (activeTriggerSelectFilesSubscriptions ?b1)
      = filter (\<lambda>k. \<not> (k \<in> set (h # hs) \<and> outcome k = Rejected))
           (activeTriggerSelectFilesSubscriptions b)"
  proof (cases "outcome h = Rejected")
    case True
    have "filter (\<lambda>k. \<not> (k \<in> set hs \<and> outcome k = Rejected))
            (filter (\<lambda>y. y \<noteq> h) (activeTriggerSelectFilesSubscriptions b))
        = filter (\<lambda>k. \<not> (k \<in> set (h # hs) \<and> outcome k = Rejected))
            (activeTriggerSelectFilesSubscriptions b)"
      unfolding filter_filter using True by (intro filter_cong) auto
    with True show ?thesis
      by (simp add: Set_delete_def)
  next
    case False
    have "filter (\<lambda>k. \<not> (k \<in> set hs \<and> outcome k = Rejected))
            (activeTriggerSelectFilesSubscriptions b)
        = filter (\<lambda>k. \<not> (k \<in> set (h # hs) \<and> outcome k = Rejected))
            (activeTriggerSelectFilesSubscriptions b)"
      using False by (intro filter_cong) auto
    with False show ?thesis
      by simp
  qed
  show ?case
    unfolding res b2 flt by (cases "outcome h = Rejected") simp_all
qed

lemma send_quiet_after:
  "after (sendTriggerSelectFilesEvent (quiet outcome) b) =
     b\<lparr>activeTriggerSelectFilesSubscriptions :=
         filter (\<lambda>h. outcome h \<noteq> Rejected) (activeTriggerSelectFilesSubscriptions b)\<rparr>"
proof -
  have "filter (\<lambda>h. \<not> (h \<in> set (activeTriggerSelectFilesSubscriptions b) \<and> outcome h = Rejected))
          (activeTriggerSelectFilesSubscriptions b)
      = filter (\<lambda>h. outcome h \<noteq> Rejected) (activeTriggerSelectFilesSubscriptions b)"
    by (rule filter_cong) auto
  then show ?thesis
    using map_callbacks_quiet [of outcome "activeTriggerSelectFilesSubscriptions b" b]
    by (auto simp: sendTriggerSelectFilesEvent_def split: prod.splits)
qed



text \<open>
  Claim C4. With channels A, B and C subscribed, a publish in which the delivery to B
  fails and the deliveries to A and C succeed is itself fulfilled (the error does not
  reach the caller), attempts A, B and C, and leaves exactly A and C subscribed; the
  request registry is untouched. The next publish, whatever its deliveries do, attempts
  exactly A and C.
\<close>

theorem sendTriggerSelectFilesEvent_drops_failed_channel:
  assumes "set (activeTriggerSelectFilesSubscriptions b) = {A, B, C}"
    and "A \<noteq> B" and "C \<noteq> B"
    and "outcome A = Fulfilled" and "outcome B = Rejected" and "outcome C = Fulfilled"
  shows "settled (sendTriggerSelectFilesEvent (quiet outcome) b) = Fulfilled
    \<and> set (attempted (sendTriggerSelectFilesEvent (quiet outcome) b)) = {A, B, C}
    \<and> set (activeTriggerSelectFilesSubscriptions
             (after (sendTriggerSelectFilesEvent (quiet outcome) b))) = {A, C}
    \<and> requestRegistry (after (sendTriggerSelectFilesEvent (quiet outcome) b)) = requestRegistry b
    \<and> set (attempted (sendTriggerSelectFilesEvent respond2
             (after (sendTriggerSelectFilesEvent (quiet outcome) b)))) = {A, C}
    \<and> settled (sendTriggerSelectFilesEvent respond2
             (after (sendTriggerSelectFilesEvent (quiet outcome) b))) = Fulfilled"
proof -
  let ?p = "sendTriggerSelectFilesEvent (quiet outcome) b"
  have subs: "activeTriggerSelectFilesSubscriptions (after ?p) =
      filter (\<lambda>h. outcome h \<noteq> Rejected) (activeTriggerSelectFilesSubscriptions b)"
    by (simp add: send_quiet_after)
  have "set (activeTriggerSelectFilesSubscriptions (after ?p)) =
      {h \<in> {A, B, C}. outcome h \<noteq> Rejected}"
    unfolding subs using assms(1) by simp
  also have "\<dots> = {A, C}"
    using assms by auto
  finally have left: "set (activeTriggerSelectFilesSubscriptions (after ?p)) = {A, C}" .
  have reg: "requestRegistry (after ?p) = requestRegistry b"
    by (simp add: send_quiet_after)
  show ?thesis
    using left reg assms(1) by (simp add: send_settled send_attempted)
qed

theorem sendTriggerSelectFilesEvent_drops_failed_channel_witness:
  "set (activeTriggerSelectFilesSubscriptions
         \<lparr>activeTriggerSelectFilesSubscriptions = [10, 11, 12], requestRegistry = (\<lambda>_. None)\<rparr>)
     = {10, 11, 12}
   \<and> activeTriggerSelectFilesSubscriptions
        (after (sendTriggerSelectFilesEvent (quiet (\<lambda>h. if h = 11 then Rejected else Fulfilled))
           \<lparr>activeTriggerSelectFilesSubscriptions = [10, 11, 12], requestRegistry = (\<lambda>_. None)\<rparr>))
     = [10, 12]
   \<and> set (attempted (sendTriggerSelectFilesEvent (quiet (\<lambda>h. Fulfilled))
        (after (sendTriggerSelectFilesEvent (quiet (\<lambda>h. if h = 11 then Rejected else Fulfilled))
           \<lparr>activeTriggerSelectFilesSubscriptions = [10, 11, 12], requestRegistry = (\<lambda>_. None)\<rparr>))))
     = {10, 12}"
proof -
  let ?b = "\<lparr>activeTriggerSelectFilesSubscriptions = [10, 11, 12], requestRegistry = (\<lambda>_. None)\<rparr>"
  let ?out = "\<lambda>h::nat. if h = 11 then Rejected else Fulfilled"
  have h1: "set (activeTriggerSelectFilesSubscriptions ?b) = {10, 11, 12}"
    by simp
  have run: "activeTriggerSelectFilesSubscriptions (after (sendTriggerSelectFilesEvent (quiet ?out) ?b))
      = [10, 12]"
    by (simp add: sendTriggerSelectFilesEvent_def send_callback_def quiet_def Set_delete_def)
  from sendTriggerSelectFilesEvent_drops_failed_channel
         [of ?b 10 11 12 ?out "quiet (\<lambda>h. Fulfilled)", OF h1] run
  show ?thesis
    by simp
qed




lemma subscribe_subscriptions:
  "activeTriggerSelectFilesSubscriptions (subscribeToTriggerSelectFiles b h rid) =
     Set_add h (activeTriggerSelectFilesSubscriptions b)"
  by (simp add: subscribeToTriggerSelectFiles_def Let_def registerRequest_def split: option.splits)

lemma subscribe_registry:
  "requestRegistry (subscribeToTriggerSelectFiles b h rid) =
     (case rid of
        None \<Rightarrow> requestRegistry b
      | Some i \<Rightarrow>
          if i \<noteq> []
          then (requestRegistry b)
                 (i \<mapsto> \<lparr>cleanup = DeleteTriggerSelectFilesSubscription h,
                        metadata = ''triggerSelectFiles_subscription'',
                        entry_responseStream = Some h\<rparr>)
          else requestRegistry b)"
  by (simp add: subscribeToTriggerSelectFiles_def Let_def registerRequest_def truthy_def
      split: option.splits)

lemma subscribe_keeps_distinct:
  "distinct (activeTriggerSelectFilesSubscriptions b) \<Longrightarrow>
   distinct (activeTriggerSelectFilesSubscriptions (subscribeToTriggerSelectFiles b h rid))"
  by (simp add: subscribe_subscriptions distinct_Set_add)

lemma run_cleanup_keeps_distinct:
  "distinct (activeTriggerSelectFilesSubscriptions b) \<Longrightarrow>
   distinct (activeTriggerSelectFilesSubscriptions (run_cleanup cl b))"
  by (cases cl) (simp add: run_cleanup_def distinct_Set_delete)

text \<open>
  Claim C6, as the code has it. Every call adds the response stream to the subscription
  set. The guard \<open>if (requestId)\<close> is a truthiness test, so the cleanup is registered
  under the identifier exactly when an identifier is supplied and is not the empty
  string; the entry holds the cleanup for this stream, the metadata
  \<open>triggerSelectFiles_subscription\<close> and the stream, and no other entry changes.
  Running that cleanup on any broker removes this stream from the subscription set and
  nothing else, and leaves the registry alone.
\<close>

theorem subscribeToTriggerSelectFiles_registers_cleanup:
  "h \<in> set (activeTriggerSelectFilesSubscriptions (subscribeToTriggerSelectFiles b h rid))
   \<and> activeTriggerSelectFilesSubscriptions (subscribeToTriggerSelectFiles b h rid) =
       Set_add h (activeTriggerSelectFilesSubscriptions b)
   \<and> requestRegistry (subscribeToTriggerSelectFiles b h rid) =
       (case rid of
          None \<Rightarrow> requestRegistry b
        | Some i \<Rightarrow>
            if i \<noteq> []
            then (requestRegistry b)
                   (i \<mapsto> \<lparr>cleanup = DeleteTriggerSelectFilesSubscription h,
                          metadata = ''triggerSelectFiles_subscription'',
                          entry_responseStream = Some h\<rparr>)
            else requestRegistry b)
   \<and> activeTriggerSelectFilesSubscriptions (run_cleanup (DeleteTriggerSelectFilesSubscription h) b2) =
       filter (\<lambda>k. k \<noteq> h) (activeTriggerSelectFilesSubscriptions b2)
   \<and> set (activeTriggerSelectFilesSubscriptions (run_cleanup (DeleteTriggerSelectFilesSubscription h) b2)) =
       set (activeTriggerSelectFilesSubscriptions b2) - {h}
   \<and> requestRegistry (run_cleanup (DeleteTriggerSelectFilesSubscription h) b2) = requestRegistry b2"
proof (intro conjI)
  show "h \<in> set (activeTriggerSelectFilesSubscriptions (subscribeToTriggerSelectFiles b h rid))"
    by (simp add: subscribe_subscriptions set_Set_add)
  show "activeTriggerSelectFilesSubscriptions (subscribeToTriggerSelectFiles b h rid) =
       Set_add h (activeTriggerSelectFilesSubscriptions b)"
    by (rule subscribe_subscriptions)
  show "requestRegistry (subscribeToTriggerSelectFiles b h rid) =
       (case rid of
          None \<Rightarrow> requestRegistry b
        | Some i \<Rightarrow>
            if i \<noteq> []
            then (requestRegistry b)
                   (i \<mapsto> \<lparr>cleanup = DeleteTriggerSelectFilesSubscription h,
                          metadata = ''triggerSelectFiles_subscription'',
                          entry_responseStream = Some h\<rparr>)
            else requestRegistry b)"
    by (rule subscribe_registry)
  show "activeTriggerSelectFilesSubscriptions (run_cleanup (DeleteTriggerSelectFilesSubscription h) b2) =
       filter (\<lambda>k. k \<noteq> h) (activeTriggerSelectFilesSubscriptions b2)"
    by (simp add: run_cleanup_def Set_delete_def)
  show "set (activeTriggerSelectFilesSubscriptions (run_cleanup (DeleteTriggerSelectFilesSubscription h) b2)) =
       set (activeTriggerSelectFilesSubscriptions b2) - {h}"
    by (simp add: run_cleanup_def set_Set_delete)
  show "requestRegistry (run_cleanup (DeleteTriggerSelectFilesSubscription h) b2) = requestRegistry b2"
    by (simp add: run_cleanup_def)
qed

theorem subscribeToTriggerSelectFiles_registers_cleanup_witness:
  "activeTriggerSelectFilesSubscriptions
     (subscribeToTriggerSelectFiles
        \<lparr>activeTriggerSelectFilesSubscriptions = [4], requestRegistry = (\<lambda>_. None)\<rparr> 5 (Some ''req-1''))
     = [4, 5]
   \<and> requestRegistry
       (subscribeToTriggerSelectFiles
          \<lparr>activeTriggerSelectFilesSubscriptions = [4], requestRegistry = (\<lambda>_. None)\<rparr> 5 (Some ''req-1''))
       ''req-1''
     = Some \<lparr>cleanup = DeleteTriggerSelectFilesSubscription 5,
             metadata = ''triggerSelectFiles_subscription'',
             entry_responseStream = Some 5\<rparr>
   \<and> activeTriggerSelectFilesSubscriptions
       (run_cleanup (DeleteTriggerSelectFilesSubscription 5)
          (subscribeToTriggerSelectFiles
             \<lparr>activeTriggerSelectFilesSubscriptions = [4], requestRegistry = (\<lambda>_. None)\<rparr> 5 (Some ''req-1'')))
     = [4]"
  using subscribeToTriggerSelectFiles_registers_cleanup
    [of 5 "\<lparr>activeTriggerSelectFilesSubscriptions = [4], requestRegistry = (\<lambda>_. None)\<rparr>"
        "Some ''req-1''"
        "subscribeToTriggerSelectFiles
           \<lparr>activeTriggerSelectFilesSubscriptions = [4], requestRegistry = (\<lambda>_. None)\<rparr> 5 (Some ''req-1'')"]
  by (simp add: Set_add_def)

text \<open>
  The claim C6 as it is written fails for the empty string: that identifier is supplied,
  the stream is subscribed, and nothing is registered under the identifier.
\<close>

theorem subscribeToTriggerSelectFiles_empty_id_counterexample:
  "activeTriggerSelectFilesSubscriptions
     (subscribeToTriggerSelectFiles no_subscriptions 5 (Some [])) = [5]
   \<and> requestRegistry (subscribeToTriggerSelectFiles no_subscriptions 5 (Some [])) [] = None"
  by (simp add: subscribeToTriggerSelectFiles_def no_subscriptions_def Let_def truthy_def
      Set_add_def)


section \<open>Properties of the bounded wait and of ensureClineViewIsVisible\<close>

lemma pWaitFor_from_timeout:
  "(\<And>u. t \<le> u \<Longrightarrow> u < timeout \<Longrightarrow> \<not> condition u) \<Longrightarrow>
   pWaitFor_from condition interval timeout t = None"
proof (induction condition interval timeout t rule: pWaitFor_from.induct)
  case (1 condition interval timeout t)
  show ?case
  proof (cases "timeout \<le> t")
    case True
    then show ?thesis by (subst pWaitFor_from.simps) simp
  next
    case False
    then have nc: "\<not> condition t"
      using "1.prems" [of t] by simp
    have "pWaitFor_from condition interval timeout (t + max 1 interval) = None"
      using False nc "1.prems" by (intro "1.IH") auto
    with False nc show ?thesis
      by (subst pWaitFor_from.simps) simp
  qed
qed

lemma pWaitFor_from_Some:
  "pWaitFor_from condition interval timeout t = Some u \<Longrightarrow>
   condition u \<and> u < timeout \<and> t \<le> u"
proof (induction condition interval timeout t rule: pWaitFor_from.induct)
  case (1 condition interval timeout t)
  show ?case
  proof (cases "timeout \<le> t")
    case True
    with "1.prems" show ?thesis by (subst (asm) pWaitFor_from.simps) simp
  next
    case False
    show ?thesis
    proof (cases "condition t")
      case True
      with False "1.prems" show ?thesis
        by (subst (asm) pWaitFor_from.simps) simp
    next
      case nc: False
      from False nc "1.prems"
      have "pWaitFor_from condition interval timeout (t + max 1 interval) = Some u"
        by (subst (asm) pWaitFor_from.simps) simp
      with False nc "1.IH" show ?thesis
        by fastforce
    qed
  qed
qed

lemma pWaitFor_timeout:
  "(\<And>u. u < timeout \<Longrightarrow> \<not> condition u) \<Longrightarrow> pWaitFor condition interval timeout = None"
  unfolding pWaitFor_def by (rule pWaitFor_from_timeout) simp

lemma pWaitFor_Some:
  "pWaitFor condition interval timeout = Some u \<Longrightarrow> condition u \<and> u < timeout"
  unfolding pWaitFor_def using pWaitFor_from_Some [of condition interval timeout 0 u] by simp

lemma pWaitFor_at_once:
  "condition 0 \<Longrightarrow> 0 < timeout \<Longrightarrow> pWaitFor condition interval timeout = Some 0"
  unfolding pWaitFor_def by (subst pWaitFor_from.simps) simp

lemma pWaitFor_bounded:
  "(case pWaitFor condition interval timeout of None \<Rightarrow> timeout | Some u \<Rightarrow> u) \<le> timeout"
  using pWaitFor_Some [of condition interval timeout]
  by (cases "pWaitFor condition interval timeout") auto


lemma waited_bounded:
  "waited (ensureClineViewIsVisible focused interval inst) \<le> 3000"
  using pWaitFor_Some [of "\<lambda>t. inst t \<noteq> None" interval 3000]
  by (auto simp: ensureClineViewIsVisible_def Let_def split: option.splits prod.splits)

lemma waited_bounded_part_000:
  "waited (ensureClineViewIsVisible_part_000 focused interval inst) \<le> 3000"
  using pWaitFor_Some [of "\<lambda>t. inst t \<noteq> None" interval 3000]
  by (auto simp: ensureClineViewIsVisible_part_000_def split: option.splits)

lemma waited_bounded_part_001:
  "waited (ensureClineViewIsVisible_part_001 focused interval inst) \<le> 3000"
  using pWaitFor_Some [of "\<lambda>t. inst t \<noteq> None" interval 3000]
  by (auto simp: ensureClineViewIsVisible_part_001_def split: option.splits)

text \<open>
  The timeout path. In a run in which the focus command has returned and no instance is
  available at any time of the bounded wait of 3000 ms, the function (in command-helpers.ts
  and in the versions of part_000 and part_001) returns \<open>null\<close>, not an exception, shows
  one message to the user, the error message that the view could not be activated, and
  spends 3000 ms in the wait; no run, whatever the instances do, waits longer than 3000 ms.
\<close>

lemma ensureClineViewIsVisible_timeout:
  assumes "\<And>t. t < 3000 \<Longrightarrow> inst t = None"
  shows "ensureClineViewIsVisible True interval inst =
      \<lparr>result = Inr None,
       effects = [ExecuteCommand ''cline.focusChatInput'',
                  ConsoleError ''Timeout waiting for Cline webview to become available.'',
                  ShowMessage ERROR ''Could not activate Cline view. Please try opening it manually.''],
       waited = 3000\<rparr>
    \<and> shown (effects (ensureClineViewIsVisible True interval inst)) =
        [(ERROR, ''Could not activate Cline view. Please try opening it manually.'')]
    \<and> ensureClineViewIsVisible_part_001 True interval inst =
      \<lparr>result = Inr None,
       effects = [ExecuteCommand ''cline.focusChatInput'',
                  ConsoleError ''Timeout waiting for Cline webview to become visible.'',
                  ShowMessage ERROR ''Could not activate Cline view. Please try opening it manually.''],
       waited = 3000\<rparr>
    \<and> shown (effects (ensureClineViewIsVisible_part_001 True interval inst)) =
        [(ERROR, ''Could not activate Cline view. Please try opening it manually.'')]
    \<and> ensureClineViewIsVisible_part_000 True interval inst =
      \<lparr>result = Inr None,
       effects = [ExecuteCommand ''cline.focusChatInput'',
                  ConsoleError ''Timeout waiting for Cline webview to become available.'',
                  ShowMessage ERROR ''Could not activate Cline view. Please try opening it manually.''],
       waited = 3000\<rparr>
    \<and> waited (ensureClineViewIsVisible focused2 interval2 inst2) \<le> 3000
    \<and> waited (ensureClineViewIsVisible_part_001 focused2 interval2 inst2) \<le> 3000
    \<and> waited (ensureClineViewIsVisible_part_000 focused2 interval2 inst2) \<le> 3000"
proof -
  have w: "pWaitFor (\<lambda>t. inst t \<noteq> None) interval 3000 = None"
    by (rule pWaitFor_timeout) (simp add: assms)
  have a: "ensureClineViewIsVisible True interval inst =
      \<lparr>result = Inr None,
       effects = [ExecuteCommand ''cline.focusChatInput'',
                  ConsoleError ''Timeout waiting for Cline webview to become available.'',
                  ShowMessage ERROR ''Could not activate Cline view. Please try opening it manually.''],
       waited = 3000\<rparr>"
    unfolding ensureClineViewIsVisible_def Let_def w by simp
  have b: "ensureClineViewIsVisible_part_001 True interval inst =
      \<lparr>result = Inr None,
       effects = [ExecuteCommand ''cline.focusChatInput'',
                  ConsoleError ''Timeout waiting for Cline webview to become visible.'',
                  ShowMessage ERROR ''Could not activate Cline view. Please try opening it manually.''],
       waited = 3000\<rparr>"
    unfolding ensureClineViewIsVisible_part_001_def w by simp
  have c: "ensureClineViewIsVisible_part_000 True interval inst =
      \<lparr>result = Inr None,
       effects = [ExecuteCommand ''cline.focusChatInput'',
                  ConsoleError ''Timeout waiting for Cline webview to become available.'',
                  ShowMessage ERROR ''Could not activate Cline view. Please try opening it manually.''],
       waited = 3000\<rparr>"
    unfolding ensureClineViewIsVisible_part_000_def w by simp
  show ?thesis
    unfolding a b c
    by (intro conjI refl waited_bounded waited_bounded_part_000 waited_bounded_part_001) simp_all
qed

lemma ensureClineViewIsVisible_timeout_example:
  "result (ensureClineViewIsVisible True 20 (\<lambda>t. None :: nat WebviewProvider option)) = Inr None
   \<and> shown (effects (ensureClineViewIsVisible True 20 (\<lambda>t. None :: nat WebviewProvider option))) =
        [(ERROR, ''Could not activate Cline view. Please try opening it manually.'')]
   \<and> waited (ensureClineViewIsVisible True 20 (\<lambda>t. None :: nat WebviewProvider option)) = 3000"
proof -
  have h: "\<And>t. t < 3000 \<Longrightarrow> (\<lambda>t. None :: nat WebviewProvider option) t = None"
    by simp
  note run = ensureClineViewIsVisible_timeout
         [of "\<lambda>t. None :: nat WebviewProvider option" 20 True 20 "\<lambda>t. None :: nat WebviewProvider option", OF h]
  from run have a: "ensureClineViewIsVisible True 20 (\<lambda>t. None :: nat WebviewProvider option) =
      \<lparr>result = Inr None,
       effects = [ExecuteCommand ''cline.focusChatInput'',
                  ConsoleError ''Timeout waiting for Cline webview to become available.'',
                  ShowMessage ERROR ''Could not activate Cline view. Please try opening it manually.''],
       waited = 3000\<rparr>"
    by (rule conjunct1)
  show ?thesis
    unfolding a by simp
qed

text \<open>
  Claim C7: a run in which no instance becomes available within the bounded wait shows
  one error message to the user and returns \<open>null\<close> rather than throwing. The code does so
  when the focus command returns, which is the lemma above. It does not when the focus
  command is rejected and no instance is ever available: the command is awaited before the
  \<open>try\<close> (line 17 of command-helpers.ts, line 9 of part_000, line 15 of part_001), so the
  rejection reaches the caller, the wait is not entered, no message is shown and the result
  is not \<open>null\<close>, although the doc comments of the function promise the controller or
  \<open>null\<close>.
\<close>

theorem ensureClineViewIsVisible_focus_rejected:
  "ensureClineViewIsVisible False 20 (\<lambda>t. None :: nat WebviewProvider option) =
      \<lparr>result = Inl CommandRejected,
       effects = [ExecuteCommand ''cline.focusChatInput''],
       waited = 0\<rparr>
   \<and> shown (effects (ensureClineViewIsVisible False 20 (\<lambda>t. None :: nat WebviewProvider option))) = []
   \<and> ensureClineViewIsVisible_part_001 False 20 (\<lambda>t. None :: nat WebviewProvider option) =
      \<lparr>result = Inl CommandRejected,
       effects = [ExecuteCommand ''cline.focusChatInput''],
       waited = 0\<rparr>
   \<and> shown (effects (ensureClineViewIsVisible_part_001 False 20
        (\<lambda>t. None :: nat WebviewProvider option))) = []
   \<and> ensureClineViewIsVisible_part_000 False 20 (\<lambda>t. None :: nat WebviewProvider option) =
      \<lparr>result = Inl CommandRejected,
       effects = [ExecuteCommand ''cline.focusChatInput''],
       waited = 0\<rparr>
   \<and> shown (effects (ensureClineViewIsVisible_part_000 False 20
        (\<lambda>t. None :: nat WebviewProvider option))) = []"
  by (simp add: ensureClineViewIsVisible_def ensureClineViewIsVisible_part_000_def
      ensureClineViewIsVisible_part_001_def)

text \<open>
  What the versions do when an instance is found. In command-helpers.ts, when the focus
  command has returned and the last active instance is there at that moment with a
  non-empty client id, the poll succeeds at once, the focus event is sent to that client
  id, no message is shown and the controller of that instance is returned; when that
  instance has no client id, the function shows that no chat window was found and returns
  \<open>null\<close>. In the version of part_000, which reads the instance when the wait is over,
  every run in which the poll succeeds returns the controller of the instance found, and
  \<open>null\<close> is returned exactly when the wait times out.
\<close>

lemma ensureClineViewIsVisible_view_at_start:
  "(inst 0 = Some w \<and> getClientId w = Some cid \<and> cid \<noteq> [] \<longrightarrow>
      ensureClineViewIsVisible True interval inst =
        \<lparr>result = Inr (Some (controller w)),
         effects = [ExecuteCommand ''cline.focusChatInput'', SendFocusChatInputEvent cid],
         waited = 0\<rparr>)
   \<and> (inst 0 = Some w \<and> \<not> truthy (getClientId w) \<longrightarrow>
      ensureClineViewIsVisible True interval inst =
        \<lparr>result = Inr None,
         effects = [ExecuteCommand ''cline.focusChatInput'',
                    ShowMessage ERROR ''Could not find an active Cline chat window.''],
         waited = 0\<rparr>)
   \<and> (pWaitFor (\<lambda>t. inst t \<noteq> None) interval 3000 = Some u \<longrightarrow>
      u < 3000 \<and>
      (\<exists>v. inst u = Some v \<and>
           ensureClineViewIsVisible_part_000 True interval inst =
             \<lparr>result = Inr (Some (controller v)),
              effects = [ExecuteCommand ''cline.focusChatInput''],
              waited = u\<rparr>))
   \<and> (result (ensureClineViewIsVisible_part_000 True interval inst) = Inr None \<longleftrightarrow>
        pWaitFor (\<lambda>t. inst t \<noteq> None) interval 3000 = None)"
proof (intro conjI impI)
  assume h: "inst 0 = Some w \<and> getClientId w = Some cid \<and> cid \<noteq> []"
  then have now: "pWaitFor (\<lambda>t. inst t \<noteq> None) interval 3000 = Some 0"
    by (intro pWaitFor_at_once) simp_all
  show "ensureClineViewIsVisible True interval inst =
        \<lparr>result = Inr (Some (controller w)),
         effects = [ExecuteCommand ''cline.focusChatInput'', SendFocusChatInputEvent cid],
         waited = 0\<rparr>"
    unfolding ensureClineViewIsVisible_def Let_def now using h by simp
next
  assume h: "inst 0 = Some w \<and> \<not> truthy (getClientId w)"
  then have now: "pWaitFor (\<lambda>t. inst t \<noteq> None) interval 3000 = Some 0"
    by (intro pWaitFor_at_once) simp_all
  show "ensureClineViewIsVisible True interval inst =
        \<lparr>result = Inr None,
         effects = [ExecuteCommand ''cline.focusChatInput'',
                    ShowMessage ERROR ''Could not find an active Cline chat window.''],
         waited = 0\<rparr>"
    unfolding ensureClineViewIsVisible_def Let_def now using h
    by (simp add: truthy_def split: option.splits)
next
  assume p: "pWaitFor (\<lambda>t. inst t \<noteq> None) interval 3000 = Some u"
  from pWaitFor_Some [OF p] show "u < 3000"
    by simp
  from pWaitFor_Some [OF p] obtain v where v: "inst u = Some v"
    by auto
  have "ensureClineViewIsVisible_part_000 True interval inst =
             \<lparr>result = Inr (Some (controller v)),
              effects = [ExecuteCommand ''cline.focusChatInput''],
              waited = u\<rparr>"
    unfolding ensureClineViewIsVisible_part_000_def p using v by simp
  with v show "\<exists>v. inst u = Some v \<and>
           ensureClineViewIsVisible_part_000 True interval inst =
             \<lparr>result = Inr (Some (controller v)),
              effects = [ExecuteCommand ''cline.focusChatInput''],
              waited = u\<rparr>"
    by blast
next
  show "result (ensureClineViewIsVisible_part_000 True interval inst) = Inr None \<longleftrightarrow>
        pWaitFor (\<lambda>t. inst t \<noteq> None) interval 3000 = None"
  proof (cases "pWaitFor (\<lambda>t. inst t \<noteq> None) interval 3000")
    case None
    show ?thesis
      unfolding ensureClineViewIsVisible_part_000_def None by simp
  next
    case (Some u)
    from pWaitFor_Some [OF Some] obtain v where v: "inst u = Some v"
      by auto
    show ?thesis
      unfolding ensureClineViewIsVisible_part_000_def Some using v by simp
  qed
qed

lemma pWaitFor_appears_after_20:
  "pWaitFor (\<lambda>t. appears_after 20 w t \<noteq> None) 20 3000 = Some 20"
  unfolding pWaitFor_def
  by (simp add: pWaitFor_from.simps [of _ _ _ 0] pWaitFor_from.simps [of _ _ _ 20]
      appears_after_def)

text \<open>
  Claim C8: a run in which an instance becomes available within the bounded wait returns
  the controller of that instance. The versions of part_000 and part_001 do;
  command-helpers.ts does not. A view that registers 20 ms after the focus command has
  returned is found by the poll at 20 ms, well inside the bound of 3000 ms. The versions
  of part_000 and part_001 return its controller. command-helpers.ts tests the instance
  it read before the wait (line 20), which is \<open>undefined\<close>, shows that no chat window was
  found and returns \<open>null\<close>.
\<close>

theorem ensureClineViewIsVisible_stale_read:
  "pWaitFor (\<lambda>t. appears_after 20 \<lparr>getClientId = Some ''client-1'', controller = (1::nat)\<rparr> t \<noteq> None)
     20 3000 = Some 20
   \<and> ensureClineViewIsVisible True 20
        (appears_after 20 \<lparr>getClientId = Some ''client-1'', controller = (1::nat)\<rparr>) =
      \<lparr>result = Inr None,
       effects = [ExecuteCommand ''cline.focusChatInput'',
                  ShowMessage ERROR ''Could not find an active Cline chat window.''],
       waited = 20\<rparr>
   \<and> ensureClineViewIsVisible_part_000 True 20
        (appears_after 20 \<lparr>getClientId = Some ''client-1'', controller = (1::nat)\<rparr>) =
      \<lparr>result = Inr (Some 1),
       effects = [ExecuteCommand ''cline.focusChatInput''],
       waited = 20\<rparr>
   \<and> ensureClineViewIsVisible_part_001 True 20
        (appears_after 20 \<lparr>getClientId = Some ''client-1'', controller = (1::nat)\<rparr>) =
      \<lparr>result = Inr (Some 1),
       effects = [ExecuteCommand ''cline.focusChatInput''],
       waited = 20\<rparr>"
proof (intro conjI)
  let ?w = "\<lparr>getClientId = Some ''client-1'', controller = (1::nat)\<rparr>"
  show "pWaitFor (\<lambda>t. appears_after 20 ?w t \<noteq> None) 20 3000 = Some 20"
    by (rule pWaitFor_appears_after_20)
  show "ensureClineViewIsVisible True 20 (appears_after 20 ?w) =
      \<lparr>result = Inr None,
       effects = [ExecuteCommand ''cline.focusChatInput'',
                  ShowMessage ERROR ''Could not find an active Cline chat window.''],
       waited = 20\<rparr>"
    unfolding ensureClineViewIsVisible_def Let_def pWaitFor_appears_after_20
    by (simp add: appears_after_def)
  show "ensureClineViewIsVisible_part_000 True 20 (appears_after 20 ?w) =
      \<lparr>result = Inr (Some 1),
       effects = [ExecuteCommand ''cline.focusChatInput''],
       waited = 20\<rparr>"
    unfolding ensureClineViewIsVisible_part_000_def pWaitFor_appears_after_20
    by (simp add: appears_after_def)
  show "ensureClineViewIsVisible_part_001 True 20 (appears_after 20 ?w) =
      \<lparr>result = Inr (Some 1),
       effects = [ExecuteCommand ''cline.focusChatInput''],
       waited = 20\<rparr>"
    unfolding ensureClineViewIsVisible_part_001_def pWaitFor_appears_after_20
    by (simp add: appears_after_def)
qed

section \<open>Properties of formatContext\<close>

lemma problems_loop_concat:
  "problems_loop problemsString ds = problemsString @ concat (map diagnostic_entry ds)"
  by (induction ds arbitrary: problemsString) simp_all

lemma present_Cons: "present (p # ps) = present [p] @ present ps"
  by (cases p) simp_all

lemma push_string_part:
  "(case x of None \<Rightarrow> parts | Some p \<Rightarrow> if p \<noteq> [] then parts @ [f p] else parts) =
   parts @ present [case x of None \<Rightarrow> None | Some p \<Rightarrow> if p = [] then None else Some (f p)]"
  by (cases x) simp_all

lemma push_object_part:
  "(case x of None \<Rightarrow> parts | Some p \<Rightarrow> parts @ [f p]) =
   parts @ present [case x of None \<Rightarrow> None | Some p \<Rightarrow> Some (f p)]"
  by (cases x) simp_all

lemma push_array_part:
  "(case x of None \<Rightarrow> parts | Some ds \<Rightarrow> if length ds > 0 then parts @ [f ds] else parts) =
   parts @ present [case x of None \<Rightarrow> None | Some ds \<Rightarrow> if ds = [] then None else Some (f ds)]"
  by (cases x) simp_all

lemma formatContext_refines_spec:
  "formatContext mention context = formatContext_spec mention context"
proof -
  have p1: "(case prompt context of None \<Rightarrow> [] | Some p \<Rightarrow> if p \<noteq> [] then [] @ [p] else []) =
      [] @ present [prompt_part context]"
    unfolding prompt_part_def by (rule push_string_part [where f = "\<lambda>p. p"])
  have p2: "\<And>parts. (case filePath context of None \<Rightarrow> parts
        | Some f \<Rightarrow> if f \<noteq> [] then parts @ [mention f] else parts) =
      parts @ present [file_mention_part mention context]"
    unfolding file_mention_part_def by (rule push_string_part)
  have p3: "\<And>parts. (case codeSelection context of None \<Rightarrow> parts
        | Some sel \<Rightarrow>
            parts @ [''```'' @ languageId sel @ newline @ text_of sel @ newline @ ''```'']) =
      parts @ present [code_selection_part context]"
    unfolding code_selection_part_def by (rule push_object_part)
  have p4: "\<And>parts. (case terminalOutput context of None \<Rightarrow> parts
        | Some out \<Rightarrow>
            if out \<noteq> []
            then parts @ [''Terminal output:'' @ newline @ ''```'' @ newline @ out
                           @ newline @ ''```'']
            else parts) =
      parts @ present [terminal_output_part context]"
    unfolding terminal_output_part_def by (rule push_string_part)
  have p5: "\<And>parts. (case diagnostics context of None \<Rightarrow> parts
        | Some ds \<Rightarrow>
            if length ds > 0
            then parts @ [trim (problems_loop (''Problems:'' @ newline) ds)]
            else parts) =
      parts @ present [diagnostics_part context]"
    unfolding diagnostics_part_def problems_loop_concat append_assoc
    by (rule push_array_part)
  have all: "present [prompt_part context, file_mention_part mention context,
                 code_selection_part context, terminal_output_part context,
                 diagnostics_part context] =
      (((([] @ present [prompt_part context]) @ present [file_mention_part mention context])
        @ present [code_selection_part context]) @ present [terminal_output_part context])
        @ present [diagnostics_part context]"
    by (subst present_Cons, subst (2) present_Cons, subst (3) present_Cons,
        subst (4) present_Cons) simp
  show ?thesis
    unfolding formatContext_def formatContext_spec_def Let_def p1 p2 p3 p4 p5 all ..
qed

lemma problems_loop_part_000_concat:
  "problems_loop_part_000 problemsString ds =
     problemsString @ concat (map diagnostic_entry_part_000 ds)"
  by (induction ds arbitrary: problemsString) simp_all

lemma formatContext_part_000_parts:
  "formatContext_part_000 mention context =
     Array_join (newline @ newline)
       (present [prompt_part context, file_mention_part mention context,
                 code_selection_part context, terminal_output_part context,
                 diagnostics_part_part_000 context])"
proof -
  have p1: "(case prompt context of None \<Rightarrow> [] | Some p \<Rightarrow> if p \<noteq> [] then [] @ [p] else []) =
      [] @ present [prompt_part context]"
    unfolding prompt_part_def by (rule push_string_part [where f = "\<lambda>p. p"])
  have p2: "\<And>parts. (case filePath context of None \<Rightarrow> parts
        | Some f \<Rightarrow> if f \<noteq> [] then parts @ [mention f] else parts) =
      parts @ present [file_mention_part mention context]"
    unfolding file_mention_part_def by (rule push_string_part)
  have p3: "\<And>parts. (case codeSelection context of None \<Rightarrow> parts
        | Some sel \<Rightarrow>
            parts @ [''```'' @ languageId sel @ newline @ text_of sel @ newline @ ''```'']) =
      parts @ present [code_selection_part context]"
    unfolding code_selection_part_def by (rule push_object_part)
  have p4: "\<And>parts. (case terminalOutput context of None \<Rightarrow> parts
        | Some out \<Rightarrow>
            if out \<noteq> []
            then parts @ [''Terminal output:'' @ newline @ ''```'' @ newline @ out
                           @ newline @ ''```'']
            else parts) =
      parts @ present [terminal_output_part context]"
    unfolding terminal_output_part_def by (rule push_string_part)
  have p5: "\<And>parts. (case diagnostics context of None \<Rightarrow> parts
        | Some ds \<Rightarrow>
            if length ds > 0
            then parts @ [trim (problems_loop_part_000 (''Problems:'' @ newline) ds)]
            else parts) =
      parts @ present [diagnostics_part_part_000 context]"
    unfolding diagnostics_part_part_000_def problems_loop_part_000_concat append_assoc
    by (rule push_array_part)
  have all: "present [prompt_part context, file_mention_part mention context,
                 code_selection_part context, terminal_output_part context,
                 diagnostics_part_part_000 context] =
      (((([] @ present [prompt_part context]) @ present [file_mention_part mention context])
        @ present [code_selection_part context]) @ present [terminal_output_part context])
        @ present [diagnostics_part_part_000 context]"
    by (subst present_Cons, subst (2) present_Cons, subst (3) present_Cons,
        subst (4) present_Cons) simp
  show ?thesis
    unfolding formatContext_part_000_def Let_def p1 p2 p3 p4 p5 all ..
qed

lemma diagnostic_line_one_based:
  "diagnostic_line d =
     (case range_of d of
        None \<Rightarrow> 1
      | Some r \<Rightarrow> (case start r of None \<Rightarrow> 1 | Some p \<Rightarrow> line p + 1))"
  by (simp add: diagnostic_line_def split: option.splits)


text \<open>
  Claim C10. formatContext joins, with one blank line between them (the separator is two
  line feeds), the parts that are present, in the order prompt, file mention, fenced
  code selection, fenced terminal output, list of diagnostics. A context with no field,
  also one whose diagnostics are the empty array, gives the empty string. The entry of a
  diagnostic names the line as the start line of its range plus one, and as line 1 when
  the range or its start is missing. The version of part_000, on the diagnostics of the
  editor, joins the same parts and names the start line plus one.
\<close>

theorem formatContext_joins_present_parts:
  "formatContext mention ctx =
     Array_join (newline @ newline)
       (present [prompt_part ctx, file_mention_part mention ctx,
                 code_selection_part ctx, terminal_output_part ctx,
                 diagnostics_part ctx])
   \<and> formatContext_part_000 mention ctx0 =
     Array_join (newline @ newline)
       (present [prompt_part ctx0, file_mention_part mention ctx0,
                 code_selection_part ctx0, terminal_output_part ctx0,
                 diagnostics_part_part_000 ctx0])
   \<and> formatContext mention no_context = []
   \<and> formatContext mention (no_context\<lparr>diagnostics := Some []\<rparr>) = []
   \<and> formatContext_part_000 mention no_context = []
   \<and> formatContext_part_000 mention (no_context\<lparr>diagnostics := Some []\<rparr>) = []
   \<and> diagnostic_entry_part_000 d0 =
       ''- '' @ (case vscode_source d0 of None \<Rightarrow> [] | Some s \<Rightarrow> if s = [] then [] else ''['' @ s @ ''] '')
         @ severity_label_part_000 (vscode_severity d0) @ '' on line ''
         @ String_of_number (vscode_range_start_line d0 + 1)
         @ '': '' @ vscode_message d0 @ newline
   \<and> diagnostic_entry d =
       ''- '' @ (case source d of None \<Rightarrow> [] | Some s \<Rightarrow> if s = [] then [] else ''['' @ s @ ''] '')
         @ severity_label (severity d) @ '' on line '' @ String_of_number (diagnostic_line d)
         @ '': '' @ message d @ newline
   \<and> diagnostic_line d =
       (case range_of d of
          None \<Rightarrow> 1
        | Some r \<Rightarrow> (case start r of None \<Rightarrow> 1 | Some p \<Rightarrow> line p + 1))"
proof (intro conjI)
  show "formatContext mention ctx =
     Array_join (newline @ newline)
       (present [prompt_part ctx, file_mention_part mention ctx,
                 code_selection_part ctx, terminal_output_part ctx,
                 diagnostics_part ctx])"
    unfolding formatContext_refines_spec formatContext_spec_def ..
  show "formatContext mention no_context = []"
    by (simp add: formatContext_def no_context_def)
  show "formatContext mention (no_context\<lparr>diagnostics := Some []\<rparr>) = []"
    by (simp add: formatContext_def no_context_def)
  show "formatContext_part_000 mention ctx0 =
     Array_join (newline @ newline)
       (present [prompt_part ctx0, file_mention_part mention ctx0,
                 code_selection_part ctx0, terminal_output_part ctx0,
                 diagnostics_part_part_000 ctx0])"
    by (rule formatContext_part_000_parts)
  show "formatContext_part_000 mention no_context = []"
    by (simp add: formatContext_part_000_def no_context_def)
  show "formatContext_part_000 mention (no_context\<lparr>diagnostics := Some []\<rparr>) = []"
    by (simp add: formatContext_part_000_def no_context_def)
  show "diagnostic_entry_part_000 d0 =
       ''- '' @ (case vscode_source d0 of None \<Rightarrow> [] | Some s \<Rightarrow> if s = [] then [] else ''['' @ s @ ''] '')
         @ severity_label_part_000 (vscode_severity d0) @ '' on line ''
         @ String_of_number (vscode_range_start_line d0 + 1)
         @ '': '' @ vscode_message d0 @ newline"
    by (simp add: diagnostic_entry_part_000_def Let_def split: option.splits)
  show "diagnostic_entry d =
       ''- '' @ (case source d of None \<Rightarrow> [] | Some s \<Rightarrow> if s = [] then [] else ''['' @ s @ ''] '')
         @ severity_label (severity d) @ '' on line '' @ String_of_number (diagnostic_line d)
         @ '': '' @ message d @ newline"
    by (simp add: diagnostic_entry_def Let_def split: option.splits)
  show "diagnostic_line d =
       (case range_of d of
          None \<Rightarrow> 1
        | Some r \<Rightarrow> (case start r of None \<Rightarrow> 1 | Some p \<Rightarrow> line p + 1))"
    by (rule diagnostic_line_one_based)
qed

theorem formatContext_joins_present_parts_witness:
  "formatContext (\<lambda>path. ''@/'' @ path)
     \<lparr>prompt = Some ''Fix this'', filePath = Some ''src/a.ts'', codeSelection = None,
      terminalOutput = Some [],
      diagnostics = Some [\<lparr>message = ''unused variable'', range_of = None,
                           severity = DIAGNOSTIC_WARNING, source = Some ''ts''\<rparr>,
                          \<lparr>message = ''missing return'',
                           range_of = Some \<lparr>start = Some \<lparr>line = 41\<rparr>\<rparr>,
                           severity = DIAGNOSTIC_ERROR, source = None\<rparr>]\<rparr>
   = ''Fix this'' @ newline @ newline @ ''@/src/a.ts'' @ newline @ newline
      @ ''Problems:'' @ newline
      @ ''- [ts] Warning on line 1: unused variable'' @ newline
      @ ''- Error on line 42: missing return''"
  using formatContext_joins_present_parts
    [where mention = "\<lambda>path. ''@/'' @ path" and ctx =
        "\<lparr>prompt = Some ''Fix this'', filePath = Some ''src/a.ts'', codeSelection = None,
          terminalOutput = Some [],
          diagnostics = Some [\<lparr>message = ''unused variable'', range_of = None,
                               severity = DIAGNOSTIC_WARNING, source = Some ''ts''\<rparr>,
                              \<lparr>message = ''missing return'',
                               range_of = Some \<lparr>start = Some \<lparr>line = 41\<rparr>\<rparr>,
                               severity = DIAGNOSTIC_ERROR, source = None\<rparr>]\<rparr>"]
  by (simp add: prompt_part_def file_mention_part_def code_selection_part_def
      terminal_output_part_def diagnostics_part_def diagnostic_entry_def diagnostic_line_def
      String_of_number_def digits.simps digit_char_def trim_def is_whitespace_def newline_def)

end
